theory Spec2Isabelle
  imports Complex_Main "HOL-Library.AList"
begin

section \<open>Gossip nodes: the protocol engine of \<open>gossipy/node.py\<close>\<close>

subsection \<open>Errors, protocols and messages\<close>

text \<open>
  Every \<open>raise\<close> of the source is a value. \<open>ValueError\<close> is what \<open>send\<close> raises
  for a protocol it does not support (the specification calls it UnsupportedProtocol) and
  what \<open>math.log2\<close>, \<open>numpy.random\<close> and the unpacking of a tuple of the wrong
  length raise; \<open>TypeError\<close> is the unpacking of \<open>None\<close>; \<open>ZeroDivisionError\<close> is
  Python's \<open>%\<close> by zero; \<open>OverflowError\<close> is an integer too large for a float;
  \<open>CacheMiss\<close> is the failure of \<open>Cache.pop\<close>.
\<close>

datatype error = ValueError | TypeError | ZeroDivisionError | OverflowError | CacheMiss

text \<open>
  The enumerations of \<open>gossipy/core.py\<close>. Python passes any object where an enumeration
  member is expected, so each type has one more constructor for everything else.
\<close>

datatype AntiEntropyProtocol = PUSH | PULL | PUSH_PULL | OTHER_PROTOCOL

datatype MessageType = MsgPUSH | MsgPULL | MsgREPLY | MsgPUSH_PULL | MsgOTHER

type_synonym CacheKey = nat

text \<open>An element of a message's payload tuple: a cache key or a plain integer.\<close>

datatype item = KeyV CacheKey | IntV int

record Message =
  m_timestamp :: int
  m_sender :: int
  m_receiver :: int
  m_type :: MessageType
  m_value :: "item list option"

record ChordMessage = Message +
  m_limit :: int

text \<open>\<open>msg.value[0] if msg.value else None\<close>: \<open>None\<close> and the empty tuple are falsy.\<close>

definition value0 :: "item list option \<Rightarrow> item option" where
  "value0 v = (case v of None \<Rightarrow> None | Some [] \<Rightarrow> None | Some (x # _) \<Rightarrow> Some x)"

subsection \<open>The shared cache\<close>

text \<open>
  Modelled from the spec: the class \<open>Cache\<close> behind the global \<open>CACHE\<close> of
  \<open>gossipy/__init__.py\<close>. \<open>put\<close> stores a value under a key no live entry has and
  returns the key; \<open>pop\<close> takes the value out, and fails with CacheMiss if the key is
  unknown or already popped. The entries are an association list, the next key a counter.
\<close>

record 'v Cache =
  entries :: "(CacheKey \<times> 'v) list"
  next_key :: CacheKey

definition Cache_put :: "'v Cache \<Rightarrow> 'v \<Rightarrow> CacheKey \<times> 'v Cache" where
  "Cache_put c v =
     (next_key c,
      c\<lparr>entries := AList.update (next_key c) v (entries c), next_key := Suc (next_key c)\<rparr>)"

text \<open>
  \<open>pop\<close> receives whatever the caller found in the payload: \<open>None\<close> and a plain
  integer are keys the cache never handed out.
\<close>

definition Cache_pop :: "'v Cache \<Rightarrow> item option \<Rightarrow> 'v Cache \<times> (error + 'v)" where
  "Cache_pop c k =
     (case k of
        Some (KeyV key) \<Rightarrow>
          (case map_of (entries c) key of
             None \<Rightarrow> (c, Inl CacheMiss)
           | Some v \<Rightarrow> (c\<lparr>entries := AList.delete key (entries c)\<rparr>, Inr v))
      | _ \<Rightarrow> (c, Inl CacheMiss))"

text \<open>
  Modelled from the spec: \<open>ModelHandler.caching(owner)\<close> of \<open>gossipy/model/handler.py\<close>,
  which snapshots the current model into the cache and returns the key.
\<close>

definition caching :: "'h \<Rightarrow> int \<Rightarrow> 'h Cache \<Rightarrow> CacheKey \<times> 'h Cache" where
  "caching h owner c = Cache_put c h"

subsection \<open>Python floats\<close>

text \<open>
  A Python float is an IEEE double: a real number that the format holds, an infinity or a
  NaN. \<open>double_of_real\<close> rounds a real number to the nearest double, ties to the even
  significand: 53 significant bits, and a fixed spacing below \<open>2^-1022\<close>. It does not
  overflow; \<open>DBL_OVERFLOW\<close>, halfway between the largest double and \<open>2^1024\<close>, is the
  least magnitude that rounds beyond the largest double, and the operations below test it.
\<close>

datatype pyfloat = Finite real | PosInf | NegInf | NaN

definition round_half_even :: "real \<Rightarrow> int" where
  "round_half_even x =
     (let f = \<lfloor>x\<rfloor>; d = x - of_int f
      in if d < 1 / 2 then f else if 1 / 2 < d then f + 1 else if even f then f else f + 1)"

definition double_of_real :: "real \<Rightarrow> real" where
  "double_of_real x =
     (if x = 0 then 0
      else (let e = max \<lfloor>log 2 \<bar>x\<bar>\<rfloor> (- 1022); ulp = 2 powr (of_int e - 52)
            in of_int (round_half_even (x / ulp)) * ulp))"

definition DBL_OVERFLOW :: real where
  "DBL_OVERFLOW = 2 ^ 1024 - 2 ^ 970"

text \<open>Python's \<open>int(x)\<close> on a float truncates towards zero; it raises on an infinity and
  on a NaN.\<close>

definition py_int :: "real \<Rightarrow> int" where
  "py_int x = (if 0 \<le> x then \<lfloor>x\<rfloor> else \<lceil>x\<rceil>)"

definition py_int_float :: "pyfloat \<Rightarrow> error + int" where
  "py_int_float x =
     (case x of
        Finite r \<Rightarrow> Inr (py_int r)
      | NaN \<Rightarrow> Inl ValueError
      | _ \<Rightarrow> Inl OverflowError)"

text \<open>Python's \<open>a / b\<close> on integers: the quotient rounded once to a float.\<close>

definition py_truediv :: "int \<Rightarrow> int \<Rightarrow> error + real" where
  "py_truediv a b =
     (if b = 0 then Inl ZeroDivisionError
      else if DBL_OVERFLOW \<le> \<bar>of_int a / of_int b\<bar> then Inl OverflowError
      else Inr (double_of_real (of_int a / of_int b)))"

text \<open>
  \<open>math.log2\<close> on an integer. A positive integer that converts to a float is converted,
  which rounds it, and the logarithm of that float is returned as a float; a larger one is
  split into a significand in \<open>[1/2, 1)\<close> and an exponent, and the result is the sum of
  the significand's logarithm and the exponent. The C library's \<open>log2\<close> is taken as
  correctly rounded.
\<close>

definition math_log2 :: "int \<Rightarrow> error + real" where
  "math_log2 n =
     (if n \<le> 0 then Inl ValueError
      else if of_int n < DBL_OVERFLOW
      then Inr (double_of_real (log 2 (double_of_real (of_int n))))
      else (let m = double_of_real (of_int n); e = \<lfloor>log 2 m\<rfloor> + 1
            in Inr (double_of_real
                      (double_of_real (log 2 (m / 2 powr of_int e)) + of_int e))))"

text \<open>
  The two draws of \<open>numpy.random\<close>. \<open>randint\<close> reduces the generator's raw number \<open>u\<close>
  into \<open>[low, high)\<close>; it raises when a bound is outside the 64-bit integers of its
  default type and when the interval is empty. \<open>normal\<close> converts its arguments to
  floats and raises on a negative scale; the float it then returns is the parameter \<open>x\<close>:
  it is drawn around \<open>loc\<close> with spread \<open>scale\<close>, and which floats the generator can
  produce is not modelled.
\<close>

definition randint :: "int \<Rightarrow> int \<Rightarrow> nat \<Rightarrow> error + int" where
  "randint low high u =
     (if low < - (2 ^ 63) \<or> 2 ^ 63 < high \<or> high \<le> low then Inl ValueError
      else Inr (low + int u mod (high - low)))"

definition normal :: "int \<Rightarrow> real \<Rightarrow> pyfloat \<Rightarrow> error + pyfloat" where
  "normal loc scale x =
     (if DBL_OVERFLOW \<le> \<bar>of_int loc\<bar> then Inl OverflowError
      else if scale < 0 then Inl ValueError
      else Inr x)"

subsection \<open>GossipNode\<close>

text \<open>
  Modelled from the spec: of \<open>P2PNetwork\<close> (\<open>gossipy/core.py\<close>) the nodes use
  \<open>size()\<close> and \<open>get_peers(idx)\<close>.
\<close>

record P2PNetwork =
  net_size :: int
  net_peers :: "int \<Rightarrow> int list"

record ('h, 'd) GossipNode =
  idx :: int
  data :: "'d \<times> 'd option"
  round_len :: int
  model_handler :: 'h
  sync :: bool
  delta :: int
  p2p_net :: P2PNetwork

text \<open>
  \<open>GossipNode.__init__\<close>:
  \<open>self.delta = randint(0, round_len) if sync else int(normal(round_len, round_len/10))\<close>.
  The quotient is computed before \<open>normal\<close> is called, and \<open>int\<close> is applied last.
\<close>

definition GossipNode_init ::
  "int \<Rightarrow> 'd \<times> 'd option \<Rightarrow> int \<Rightarrow> 'h \<Rightarrow> P2PNetwork \<Rightarrow> bool \<Rightarrow> nat \<Rightarrow> pyfloat
     \<Rightarrow> error + ('h, 'd) GossipNode" where
  "GossipNode_init i dat rl mh net sy u x =
     (case (if sy then randint 0 rl u
            else (case py_truediv rl 10 of
                    Inl e \<Rightarrow> Inl e
                  | Inr scale \<Rightarrow>
                      (case normal rl scale x of
                         Inl e \<Rightarrow> Inl e
                       | Inr r \<Rightarrow> py_int_float r))) of
        Inl e \<Rightarrow> Inl e
      | Inr dl \<Rightarrow>
          Inr \<lparr>idx = i, data = dat, round_len = rl, model_handler = mh, sync = sy,
               delta = dl, p2p_net = net\<rparr>)"

text \<open>
  \<open>GossipNode.timed_out\<close>:
  \<open>((t % self.round_len) == self.delta) if self.sync else ((t % self.delta) == 0)\<close>.
  Python's \<open>%\<close> on integers takes the sign of the divisor, as \<open>mod\<close> on \<open>int\<close> does,
  and raises on a zero divisor.
\<close>

definition py_mod :: "int \<Rightarrow> int \<Rightarrow> error + int" where
  "py_mod a b = (if b = 0 then Inl ZeroDivisionError else Inr (a mod b))"

definition timed_out :: "('h, 'd, 'z) GossipNode_scheme \<Rightarrow> int \<Rightarrow> error + bool" where
  "timed_out n t =
     (if sync n then map_sum id (\<lambda>r. r = delta n) (py_mod t (round_len n))
      else map_sum id (\<lambda>r. r = 0) (py_mod t (delta n)))"

text \<open>
  \<open>GossipNode.send\<close>. An operation that touches the node or the cache returns both as
  they are when it returns or raises, and then the value returned or the error raised.
\<close>

definition send ::
  "('h, 'd, 'z) GossipNode_scheme \<Rightarrow> 'h Cache \<Rightarrow> int \<Rightarrow> int \<Rightarrow> AntiEntropyProtocol
     \<Rightarrow> ('h, 'd, 'z) GossipNode_scheme \<times> 'h Cache \<times> (error + Message)" where
  "send n c t peer protocol =
     (if protocol = PUSH then
        (let (key, c') = caching (model_handler n) (idx n) c
         in (n, c', Inr \<lparr>m_timestamp = t, m_sender = idx n, m_receiver = peer,
                          m_type = MsgPUSH, m_value = Some [KeyV key]\<rparr>))
      else if protocol = PULL then
        (n, c, Inr \<lparr>m_timestamp = t, m_sender = idx n, m_receiver = peer,
                    m_type = MsgPULL, m_value = None\<rparr>)
      else if protocol = PUSH_PULL then
        (let (key, c') = caching (model_handler n) (idx n) c
         in (n, c', Inr \<lparr>m_timestamp = t, m_sender = idx n, m_receiver = peer,
                          m_type = MsgPUSH_PULL, m_value = Some [KeyV key]\<rparr>))
      else (n, c, Inl ValueError))"

text \<open>
  \<open>GossipNode.receive\<close>. The call \<open>self.model_handler(recv_model, self.data[0])\<close> runs
  \<open>ModelHandler.__call__\<close>, which is not part of the node: it is the parameter
  \<open>hcall\<close>, from the handler, the received snapshot and the training data to the
  handler afterwards.
\<close>

definition receive ::
  "('h \<Rightarrow> 'h \<Rightarrow> 'd \<Rightarrow> 'h) \<Rightarrow> ('h, 'd, 'z) GossipNode_scheme \<Rightarrow> 'h Cache \<Rightarrow> int
     \<Rightarrow> ('y) Message_scheme
     \<Rightarrow> ('h, 'd, 'z) GossipNode_scheme \<times> 'h Cache \<times> (error + Message option)" where
  "receive hcall n c t msg =
     (let msg_type = m_type msg; recv_model = value0 (m_value msg) in
      case (if msg_type = MsgPUSH \<or> msg_type = MsgREPLY \<or> msg_type = MsgPUSH_PULL then
              (case Cache_pop c recv_model of
                 (c1, Inl e) \<Rightarrow> (n, c1, Inl e)
               | (c1, Inr recv) \<Rightarrow>
                   (n\<lparr>model_handler := hcall (model_handler n) recv (fst (data n))\<rparr>, c1,
                    Inr ()))
            else (n, c, Inr ())) of
        (n1, c1, Inl e) \<Rightarrow> (n1, c1, Inl e)
      | (n1, c1, Inr _) \<Rightarrow>
          if msg_type = MsgPULL \<or> msg_type = MsgPUSH_PULL then
            (let (key, c2) = caching (model_handler n1) (idx n1) c1
             in (n1, c2, Inr (Some \<lparr>m_timestamp = t, m_sender = idx n1,
                                     m_receiver = m_sender msg, m_type = MsgREPLY,
                                     m_value = Some [KeyV key]\<rparr>)))
          else (n1, c1, Inr None))"

subsection \<open>ChordNode\<close>

text \<open>
  \<open>local_cache\<close> is a Python dictionary from sender to the received payload element
  (\<open>None\<close> when the message had no payload). A dictionary keeps its keys in insertion
  order and assigning to a present key keeps the key's place, which is what
  \<open>AList.update\<close> does; \<open>values()\<close> is the second components in that order.
\<close>

record ('h, 'd) ChordNode = "('h, 'd) GossipNode" +
  finger :: "int list"
  local_cache :: "(int \<times> item option) list"

text \<open>
  One turn of the loop of \<open>ChordNode.__init__\<close> on the state
  \<open>(self.finger, pow2, cur)\<close>:
  \<open>cur = idx + pow2; pow2 = pow2 + pow2; if cur >= size: cur = cur - size; self.finger[i] = cur\<close>.
\<close>

definition finger_step :: "int \<Rightarrow> int \<Rightarrow> nat \<Rightarrow> int list \<times> int \<times> int \<Rightarrow> int list \<times> int \<times> int" where
  "finger_step i sz k st =
     (case st of (fing, pow2, cur) \<Rightarrow>
        (let cur1 = i + pow2;
             pow2' = pow2 + pow2;
             cur2 = (if sz \<le> cur1 then cur1 - sz else cur1)
         in (fing[k := cur2], pow2', cur2)))"

text \<open>
  \<open>m = int(log2(size)) + 1\<close>, the loop over \<open>range(m)\<close> from \<open>[1]*m\<close>, and
  \<open>self.finger.reverse()\<close>. \<open>math.log2\<close> raises on a size that is not positive.
\<close>

definition finger_len :: "int \<Rightarrow> error + int" where
  "finger_len sz = (case math_log2 sz of Inl e \<Rightarrow> Inl e | Inr l \<Rightarrow> Inr (py_int l + 1))"

definition finger_loop :: "int \<Rightarrow> int \<Rightarrow> nat \<Rightarrow> int list \<times> int \<times> int" where
  "finger_loop i sz m = fold (finger_step i sz) [0..<m] (replicate m 1, 1, i)"

definition finger_table :: "int \<Rightarrow> int \<Rightarrow> error + int list" where
  "finger_table i sz =
     (case finger_len sz of
        Inl e \<Rightarrow> Inl e
      | Inr m \<Rightarrow> Inr (rev (fst (finger_loop i sz (nat m)))))"

definition ChordNode_init ::
  "int \<Rightarrow> 'd \<times> 'd option \<Rightarrow> int \<Rightarrow> 'h \<Rightarrow> P2PNetwork \<Rightarrow> bool \<Rightarrow> nat \<Rightarrow> pyfloat
     \<Rightarrow> error + ('h, 'd) ChordNode" where
  "ChordNode_init i dat rl mh net sy u x =
     (case GossipNode_init i dat rl mh net sy u x of
        Inl e \<Rightarrow> Inl e
      | Inr b \<Rightarrow>
          (case finger_table i (net_size net) of
             Inl e \<Rightarrow> Inl e
           | Inr f \<Rightarrow>
               Inr \<lparr>idx = idx b, data = data b, round_len = round_len b,
                    model_handler = model_handler b, sync = sync b, delta = delta b,
                    p2p_net = p2p_net b, finger = f, local_cache = []\<rparr>))"

text \<open>
  \<open>[CACHE.pop(k) for k in self.local_cache.values()]\<close>: the pops run in order and the
  first failure ends the comprehension, the cache staying as the earlier pops left it.
\<close>

fun pop_all :: "'v Cache \<Rightarrow> item option list \<Rightarrow> 'v Cache \<times> (error + 'v list)" where
  "pop_all c [] = (c, Inr [])"
| "pop_all c (k # ks) =
     (case Cache_pop c k of
        (c1, Inl e) \<Rightarrow> (c1, Inl e)
      | (c1, Inr v) \<Rightarrow>
          (case pop_all c1 ks of
             (c2, Inl e) \<Rightarrow> (c2, Inl e)
           | (c2, Inr vs) \<Rightarrow> (c2, Inr (v # vs))))"

text \<open>
  \<open>ChordNode.timed_out\<close>. The call
  \<open>self.model_handler([...], self.data[0], weights)\<close> runs \<open>WeightedTMH.__call__\<close>,
  the parameter \<open>hcallw\<close>.
\<close>

definition Chord_timed_out ::
  "('h \<Rightarrow> 'h list \<Rightarrow> 'd \<Rightarrow> 'w \<Rightarrow> 'h) \<Rightarrow> ('h, 'd) ChordNode \<Rightarrow> 'h Cache \<Rightarrow> int \<Rightarrow> 'w
     \<Rightarrow> ('h, 'd) ChordNode \<times> 'h Cache \<times> (error + bool)" where
  "Chord_timed_out hcallw n c t weights =
     (case timed_out n t of
        Inl e \<Rightarrow> (n, c, Inl e)
      | Inr tout \<Rightarrow>
          if tout \<and> local_cache n \<noteq> [] then
            (case pop_all c (map snd (local_cache n)) of
               (c1, Inl e) \<Rightarrow> (n, c1, Inl e)
             | (c1, Inr models) \<Rightarrow>
                 (n\<lparr>model_handler := hcallw (model_handler n) models (fst (data n)) weights,
                    local_cache := []\<rparr>, c1, Inr tout))
          else (n, c, Inr tout))"

text \<open>\<open>ChordNode.send\<close>: the snapshot is cached under the \<open>sender\<close> argument.\<close>

definition Chord_send ::
  "('h, 'd) ChordNode \<Rightarrow> 'h Cache \<Rightarrow> int \<Rightarrow> int \<Rightarrow> int \<Rightarrow> AntiEntropyProtocol \<Rightarrow> int
     \<Rightarrow> ('h, 'd) ChordNode \<times> 'h Cache \<times> (error + ChordMessage)" where
  "Chord_send n c t sndr peer protocol limit =
     (if protocol = PUSH then
        (let (key, c') = caching (model_handler n) sndr c
         in (n, c', Inr \<lparr>m_timestamp = t, m_sender = sndr, m_receiver = peer,
                          m_type = MsgPUSH, m_value = Some [KeyV key], m_limit = limit\<rparr>))
      else (n, c, Inl ValueError))"

text \<open>
  \<open>ChordNode.receive\<close>. The value popped for a stale entry is dropped; the pop may
  still raise.
\<close>

definition Chord_receive ::
  "('h, 'd) ChordNode \<Rightarrow> 'h Cache \<Rightarrow> int \<Rightarrow> ChordMessage
     \<Rightarrow> ('h, 'd) ChordNode \<times> 'h Cache \<times> (error + ChordMessage option)" where
  "Chord_receive n c t msg =
     (let sndr = m_sender msg; msg_type = m_type msg; recv_model = value0 (m_value msg) in
      if msg_type = MsgPUSH then
        (case (case map_of (local_cache n) sndr of
                 None \<Rightarrow> (c, Inr ())
               | Some stale \<Rightarrow>
                   if idx n = m_limit msg then map_prod id (map_sum id (\<lambda>_. ())) (Cache_pop c stale)
                   else (c, Inr ())) of
           (c1, Inl e) \<Rightarrow> (n, c1, Inl e)
         | (c1, Inr _) \<Rightarrow>
             (n\<lparr>local_cache := AList.update sndr recv_model (local_cache n)\<rparr>, c1, Inr None))
      else (n, c, Inr None))"

subsection \<open>All2AllGossipNode\<close>

record ('h, 'd) All2AllGossipNode = "('h, 'd) GossipNode" +
  a2a_local_cache :: "(int \<times> item option) list"

definition All2AllGossipNode_init ::
  "int \<Rightarrow> 'd \<times> 'd option \<Rightarrow> int \<Rightarrow> 'h \<Rightarrow> P2PNetwork \<Rightarrow> bool \<Rightarrow> nat \<Rightarrow> pyfloat
     \<Rightarrow> error + ('h, 'd) All2AllGossipNode" where
  "All2AllGossipNode_init i dat rl mh net sy u x =
     (case GossipNode_init i dat rl mh net sy u x of
        Inl e \<Rightarrow> Inl e
      | Inr b \<Rightarrow>
          Inr \<lparr>idx = idx b, data = data b, round_len = round_len b,
               model_handler = model_handler b, sync = sync b, delta = delta b,
               p2p_net = p2p_net b, a2a_local_cache = []\<rparr>)"

definition All2All_timed_out ::
  "('h \<Rightarrow> 'h list \<Rightarrow> 'd \<Rightarrow> 'w \<Rightarrow> 'h) \<Rightarrow> ('h, 'd) All2AllGossipNode \<Rightarrow> 'h Cache \<Rightarrow> int \<Rightarrow> 'w
     \<Rightarrow> ('h, 'd) All2AllGossipNode \<times> 'h Cache \<times> (error + bool)" where
  "All2All_timed_out hcallw n c t weights =
     (case timed_out n t of
        Inl e \<Rightarrow> (n, c, Inl e)
      | Inr tout \<Rightarrow>
          if tout \<and> a2a_local_cache n \<noteq> [] then
            (case pop_all c (map snd (a2a_local_cache n)) of
               (c1, Inl e) \<Rightarrow> (n, c1, Inl e)
             | (c1, Inr models) \<Rightarrow>
                 (n\<lparr>model_handler := hcallw (model_handler n) models (fst (data n)) weights,
                    a2a_local_cache := []\<rparr>, c1, Inr tout))
          else (n, c, Inr tout))"

text \<open>\<open>All2AllGossipNode.send\<close>: PUSH goes to \<open>super().send\<close>.\<close>

definition All2All_send ::
  "('h, 'd) All2AllGossipNode \<Rightarrow> 'h Cache \<Rightarrow> int \<Rightarrow> int \<Rightarrow> AntiEntropyProtocol
     \<Rightarrow> ('h, 'd) All2AllGossipNode \<times> 'h Cache \<times> (error + Message)" where
  "All2All_send n c t peer protocol =
     (if protocol = PUSH then send n c t peer protocol else (n, c, Inl ValueError))"

definition All2All_receive ::
  "('h, 'd) All2AllGossipNode \<Rightarrow> 'h Cache \<Rightarrow> int \<Rightarrow> Message
     \<Rightarrow> ('h, 'd) All2AllGossipNode \<times> 'h Cache \<times> (error + Message option)" where
  "All2All_receive n c t msg =
     (let sndr = m_sender msg; msg_type = m_type msg; recv_model = value0 (m_value msg) in
      if msg_type = MsgPUSH then
        (case (case map_of (a2a_local_cache n) sndr of
                 None \<Rightarrow> (c, Inr ())
               | Some stale \<Rightarrow> map_prod id (map_sum id (\<lambda>_. ())) (Cache_pop c stale)) of
           (c1, Inl e) \<Rightarrow> (n, c1, Inl e)
         | (c1, Inr _) \<Rightarrow>
             (n\<lparr>a2a_local_cache := AList.update sndr recv_model (a2a_local_cache n)\<rparr>, c1,
              Inr None))
      else (n, c, Inr None))"

text \<open>
  The messages a node is handed between two firings of its timeout, one \<open>receive\<close> after
  the other; a raise ends the run.
\<close>

fun Chord_receive_all ::
  "('h, 'd) ChordNode \<Rightarrow> 'h Cache \<Rightarrow> (int \<times> ChordMessage) list
     \<Rightarrow> ('h, 'd) ChordNode \<times> 'h Cache \<times> (error + unit)" where
  "Chord_receive_all n c [] = (n, c, Inr ())"
| "Chord_receive_all n c (tm # ms) =
     (case Chord_receive n c (fst tm) (snd tm) of
        (n1, c1, Inl e) \<Rightarrow> (n1, c1, Inl e)
      | (n1, c1, Inr _) \<Rightarrow> Chord_receive_all n1 c1 ms)"

fun All2All_receive_all ::
  "('h, 'd) All2AllGossipNode \<Rightarrow> 'h Cache \<Rightarrow> (int \<times> Message) list
     \<Rightarrow> ('h, 'd) All2AllGossipNode \<times> 'h Cache \<times> (error + unit)" where
  "All2All_receive_all n c [] = (n, c, Inr ())"
| "All2All_receive_all n c (tm # ms) =
     (case All2All_receive n c (fst tm) (snd tm) of
        (n1, c1, Inl e) \<Rightarrow> (n1, c1, Inl e)
      | (n1, c1, Inr _) \<Rightarrow> All2All_receive_all n1 c1 ms)"

text \<open>The senders of the PUSH messages of such a run.\<close>

definition push_senders :: "(int \<times> 'y Message_scheme) list \<Rightarrow> int set" where
  "push_senders ms = {m_sender (snd tm) | tm. tm \<in> set ms \<and> m_type (snd tm) = MsgPUSH}"

subsection \<open>PartitioningBasedNode\<close>

text \<open>
  \<open>recv_model, pid = msg.value\<close>: unpacking \<open>None\<close> raises TypeError, a tuple that has
  not two elements ValueError.
\<close>

definition unpack2 :: "item list option \<Rightarrow> error + item \<times> item" where
  "unpack2 v =
     (case v of
        None \<Rightarrow> Inl TypeError
      | Some [a, b] \<Rightarrow> Inr (a, b)
      | Some _ \<Rightarrow> Inl ValueError)"

text \<open>
  Modelled from the spec: \<open>PartitionedTMH.__call__(recv_model, data, pid)\<close> of
  \<open>gossipy/model/handler.py\<close>. The model is the sequence of its \<open>n_parts\<close> partition
  slices; the call merges only the slice that \<open>pid\<close> names of the received model into
  the local model and leaves all other partitions untouched. How one slice is merged with
  the received slice and the training data is the parameter \<open>combine\<close>. A \<open>pid\<close> that
  names no partition merges nothing.
\<close>

definition PartitionedTMH_call ::
  "('p \<Rightarrow> 'p \<Rightarrow> 'd \<Rightarrow> 'p) \<Rightarrow> 'p list \<Rightarrow> 'p list \<Rightarrow> 'd \<Rightarrow> item \<Rightarrow> 'p list" where
  "PartitionedTMH_call combine h recv dat pid =
     (case pid of
        IntV p \<Rightarrow>
          if 0 \<le> p \<and> nat p < length h \<and> nat p < length recv
          then h[nat p := combine (h ! nat p) (recv ! nat p) dat]
          else h
      | KeyV _ \<Rightarrow> h)"

text \<open>
  \<open>PartitioningBasedNode.receive\<close>; \<open>self.model_handler.tm_partition.n_parts\<close> is the
  number of slices of the local model, and \<open>u\<close> is the generator's output for the draw of
  the reply's partition.
\<close>

definition Partitioning_receive ::
  "('p \<Rightarrow> 'p \<Rightarrow> 'd \<Rightarrow> 'p) \<Rightarrow> ('p list, 'd) GossipNode \<Rightarrow> 'p list Cache \<Rightarrow> int \<Rightarrow> Message
     \<Rightarrow> nat
     \<Rightarrow> ('p list, 'd) GossipNode \<times> 'p list Cache \<times> (error + Message option)" where
  "Partitioning_receive combine n c t msg u =
     (let msg_type = m_type msg in
      case (if msg_type = MsgPUSH \<or> msg_type = MsgREPLY \<or> msg_type = MsgPUSH_PULL then
              (case unpack2 (m_value msg) of
                 Inl e \<Rightarrow> (n, c, Inl e)
               | Inr (recv_model, pid) \<Rightarrow>
                   (case Cache_pop c (Some recv_model) of
                      (c1, Inl e) \<Rightarrow> (n, c1, Inl e)
                    | (c1, Inr recv) \<Rightarrow>
                        (n\<lparr>model_handler :=
                             PartitionedTMH_call combine (model_handler n) recv (fst (data n)) pid\<rparr>,
                         c1, Inr ())))
            else (n, c, Inr ())) of
        (n1, c1, Inl e) \<Rightarrow> (n1, c1, Inl e)
      | (n1, c1, Inr _) \<Rightarrow>
          if msg_type = MsgPULL \<or> msg_type = MsgPUSH_PULL then
            (case randint 0 (int (length (model_handler n1))) u of
               Inl e \<Rightarrow> (n1, c1, Inl e)
             | Inr pid \<Rightarrow>
                 (let (key, c2) = caching (model_handler n1) (idx n1) c1
                  in (n1, c2, Inr (Some \<lparr>m_timestamp = t, m_sender = idx n1,
                                          m_receiver = m_sender msg, m_type = MsgREPLY,
                                          m_value = Some [KeyV key, IntV pid]\<rparr>))))
          else (n1, c1, Inr None))"

subsection \<open>Auxiliary notions for the statements\<close>

text \<open>What one turn of the finger loop stores at position \<open>k\<close>.\<close>

definition finger_entry :: "int \<Rightarrow> int \<Rightarrow> nat \<Rightarrow> int" where
  "finger_entry i sz k = (if sz \<le> i + 2 ^ k then i + 2 ^ k - sz else i + 2 ^ k)"

text \<open>A network of four nodes and a node of it, for the concrete instances below.\<close>

definition net4 :: P2PNetwork where
  "net4 = \<lparr>net_size = 4, net_peers = (\<lambda>_. [])\<rparr>"

definition node0 :: "(nat, nat) GossipNode" where
  "node0 = \<lparr>idx = 0, data = (5, None), round_len = 10, model_handler = 7, sync = True,
            delta = 3, p2p_net = net4\<rparr>"

text \<open>A cache with two snapshots, and a ChordNode and an All2AllGossipNode of the network
  that each hold a pending entry of sender 1.\<close>

definition cache0 :: "nat Cache" where
  "cache0 = \<lparr>entries = [(0, 11), (1, 12)], next_key = 2\<rparr>"

definition chord0 :: "(nat, nat) ChordNode" where
  "chord0 = \<lparr>idx = 0, data = (5, None), round_len = 10, model_handler = 7, sync = True,
             delta = 3, p2p_net = net4, finger = [0, 2, 1],
             local_cache = [(1, Some (KeyV 0))]\<rparr>"

definition a2a0 :: "(nat, nat) All2AllGossipNode" where
  "a2a0 = \<lparr>idx = 0, data = (5, None), round_len = 10, model_handler = 7, sync = True,
           delta = 3, p2p_net = net4, a2a_local_cache = [(1, Some (KeyV 0))]\<rparr>"

text \<open>A handler call that adds up what it is given, and its weighted form.\<close>

definition hcall0 :: "nat \<Rightarrow> nat \<Rightarrow> nat \<Rightarrow> nat" where
  "hcall0 h recv dat = h + recv + dat"

definition hcallw0 :: "nat \<Rightarrow> nat list \<Rightarrow> nat \<Rightarrow> nat \<Rightarrow> nat" where
  "hcallw0 h recvs dat w = h + w * sum_list recvs + dat"

text \<open>A message from \<open>s\<close> to node 0 carrying the key \<open>k\<close>, plain and for a ChordNode.\<close>

definition push_msg :: "int \<Rightarrow> MessageType \<Rightarrow> CacheKey \<Rightarrow> Message" where
  "push_msg s ty k = \<lparr>m_timestamp = 4, m_sender = s, m_receiver = 0, m_type = ty,
                      m_value = Some [KeyV k]\<rparr>"

definition chord_msg :: "int \<Rightarrow> MessageType \<Rightarrow> CacheKey \<Rightarrow> int \<Rightarrow> ChordMessage" where
  "chord_msg s ty k l = \<lparr>m_timestamp = 4, m_sender = s, m_receiver = 0, m_type = ty,
                         m_value = Some [KeyV k], m_limit = l\<rparr>"

text \<open>The local cache after a PUSH of sender 1 with key 0 and one of sender 2 with key 1.\<close>

definition pending2 :: "(int \<times> item option) list" where
  "pending2 = [(1, Some (KeyV 0)), (2, Some (KeyV 1))]"

text \<open>A node with a model of three partitions, a cache with one such model, a message
  with a partition id, and a merge of slices that adds up.\<close>

definition pnode0 :: "(nat list, nat) GossipNode" where
  "pnode0 = \<lparr>idx = 0, data = (5, None), round_len = 10, model_handler = [1, 2, 3],
             sync = True, delta = 3, p2p_net = net4\<rparr>"

definition pcache0 :: "nat list Cache" where
  "pcache0 = \<lparr>entries = [(0, [10, 20, 30])], next_key = 1\<rparr>"

definition part_msg :: "MessageType \<Rightarrow> CacheKey \<Rightarrow> int \<Rightarrow> Message" where
  "part_msg ty k pid = \<lparr>m_timestamp = 4, m_sender = 1, m_receiver = 0, m_type = ty,
                        m_value = Some [KeyV k, IntV pid]\<rparr>"

definition combine0 :: "nat \<Rightarrow> nat \<Rightarrow> nat \<Rightarrow> nat" where
  "combine0 a b dat = a + b + dat"

text \<open>A network one node short of \<open>2^49\<close> nodes.\<close>

definition net_big :: P2PNetwork where
  "net_big = \<lparr>net_size = 562949953421311, net_peers = (\<lambda>_. [])\<rparr>"

section \<open>Properties\<close>

subsection \<open>Timing\<close>

text \<open>
  C6. A synchronous node with round length \<open>R\<close> and delta \<open>d\<close> in \<open>[0, R)\<close> times out at
  \<open>t\<close> iff \<open>t mod R = d\<close>; an asynchronous node with delta \<open>d \<ge> 1\<close> times out at \<open>t\<close> iff
  \<open>t mod d = 0\<close>. It holds at every \<open>t\<close>, so at every \<open>t \<ge> 0\<close>, and no division raises.
\<close>

theorem timed_out_sync_async:
  "(sync n \<and> 0 \<le> delta n \<and> delta n < round_len n \<longrightarrow>
      timed_out n t = Inr (t mod round_len n = delta n)) \<and>
   (\<not> sync n \<and> 1 \<le> delta n \<longrightarrow> timed_out n t = Inr (t mod delta n = 0))"
  by (auto simp: timed_out_def py_mod_def)

theorem timed_out_sync_async_witness:
  "timed_out node0 13 = Inr True \<and> timed_out node0 14 = Inr False \<and>
   timed_out (node0\<lparr>sync := False\<rparr>) 9 = Inr True \<and>
   timed_out (node0\<lparr>sync := False\<rparr>) 10 = Inr False"
  using timed_out_sync_async [of node0 13] timed_out_sync_async [of node0 14]
    timed_out_sync_async [of "node0\<lparr>sync := False\<rparr>" 9]
    timed_out_sync_async [of "node0\<lparr>sync := False\<rparr>" 10]
  by (simp add: node0_def)

subsection \<open>Rounding to a float\<close>

lemma round_half_even_of_int: "round_half_even (of_int k) = k"
  by (simp add: round_half_even_def)

lemma round_half_even_near:
  assumes "of_int k - 1 / 2 \<le> x" "x < of_int k + 1 / 2" "even k"
  shows "round_half_even x = k"
proof (cases "x < of_int k")
  case True
  with assms have f: "\<lfloor>x\<rfloor> = k - 1" by (intro floor_unique) auto
  from assms(3) have "odd (k - 1)" by simp
  with assms True show ?thesis by (simp add: round_half_even_def f Let_def)
next
  case False
  with assms have f: "\<lfloor>x\<rfloor> = k" by (intro floor_unique) auto
  with assms False show ?thesis by (simp add: round_half_even_def f Let_def)
qed

lemma round_half_even_nonneg: "0 \<le> x \<Longrightarrow> 0 \<le> round_half_even x"
  by (simp add: round_half_even_def Let_def)

lemma double_of_real_nonneg: "0 \<le> x \<Longrightarrow> 0 \<le> double_of_real x"
  by (simp add: double_of_real_def Let_def round_half_even_nonneg)

subsection \<open>The delta fixed at construction\<close>

lemma py_int_ge1: "1 \<le> py_int x \<longleftrightarrow> 1 \<le> x"
  unfolding py_int_def by (auto simp: le_floor_iff)

lemma randint_0_in_range:
  "1 \<le> rl \<Longrightarrow> rl \<le> 2 ^ 63 \<Longrightarrow> randint 0 rl u = Inr (int u mod rl)"
  by (simp add: randint_def)

lemma async_draw:
  assumes "1 \<le> rl" "of_int rl < DBL_OVERFLOW"
  shows "GossipNode_init i dat rl mh net False u (Finite r) =
           Inr \<lparr>idx = i, data = dat, round_len = rl, model_handler = mh, sync = False,
                delta = py_int r, p2p_net = net\<rparr>"
proof -
  have q: "\<bar>real_of_int rl / real_of_int 10\<bar> < DBL_OVERFLOW" using assms by simp
  have s: "\<not> double_of_real (real_of_int rl / real_of_int 10) < 0"
    using double_of_real_nonneg [of "real_of_int rl / real_of_int 10"] assms by simp
  have l: "\<not> DBL_OVERFLOW \<le> \<bar>real_of_int rl\<bar>" using assms by simp
  show ?thesis
    unfolding GossipNode_init_def py_truediv_def normal_def py_int_float_def
    using q s l by simp
qed

lemma async_overflow:
  assumes "DBL_OVERFLOW \<le> of_int rl"
  shows "GossipNode_init i dat rl mh net False u x = Inl OverflowError"
proof -
  have l: "DBL_OVERFLOW \<le> \<bar>real_of_int rl\<bar>" using assms by simp
  show ?thesis
    unfolding GossipNode_init_def py_truediv_def normal_def
    using l by simp
qed

text \<open>
  C2, as the code has it. With round length \<open>R \<ge> 1\<close>, a synchronous node is constructed
  when \<open>R \<le> 2^63\<close>, with a delta in \<open>[0, R)\<close>, and the constructor raises for a larger
  \<open>R\<close>. An asynchronous node is constructed when \<open>R\<close> converts to a float and the draw is
  finite, and the constructor raises when \<open>R\<close> does not convert; its delta is the draw
  truncated towards zero and nothing else: it is at least 1 exactly when the draw is.
\<close>

theorem delta_at_construction:
  "1 \<le> rl \<Longrightarrow>
   (rl \<le> 2 ^ 63 \<longrightarrow>
      (\<exists>n. GossipNode_init i dat rl mh net True u x = Inr n \<and> 0 \<le> delta n \<and> delta n < rl)) \<and>
   (2 ^ 63 < rl \<longrightarrow> GossipNode_init i dat rl mh net True u x = Inl ValueError) \<and>
   (of_int rl < DBL_OVERFLOW \<longrightarrow>
      (\<exists>n. GossipNode_init i dat rl mh net False u (Finite r) = Inr n \<and>
           delta n = py_int r \<and> (1 \<le> delta n \<longleftrightarrow> 1 \<le> r))) \<and>
   (DBL_OVERFLOW \<le> of_int rl \<longrightarrow>
      GossipNode_init i dat rl mh net False u x = Inl OverflowError)"
proof (intro conjI impI)
  assume "1 \<le> rl" "rl \<le> 2 ^ 63"
  then show "\<exists>n. GossipNode_init i dat rl mh net True u x = Inr n \<and>
      0 \<le> delta n \<and> delta n < rl"
    by (simp add: GossipNode_init_def randint_0_in_range)
next
  assume "2 ^ 63 < rl"
  then show "GossipNode_init i dat rl mh net True u x = Inl ValueError"
    by (simp add: GossipNode_init_def randint_def)
next
  assume "1 \<le> rl" "of_int rl < DBL_OVERFLOW"
  then show "\<exists>n. GossipNode_init i dat rl mh net False u (Finite r) = Inr n \<and>
      delta n = py_int r \<and> (1 \<le> delta n \<longleftrightarrow> 1 \<le> r)"
    by (simp add: async_draw py_int_ge1)
next
  assume "DBL_OVERFLOW \<le> of_int rl"
  then show "GossipNode_init i dat rl mh net False u x = Inl OverflowError"
    by (rule async_overflow)
qed

theorem delta_at_construction_witness:
  "(\<exists>n. GossipNode_init 0 (5::nat, None) 10 (7::nat) net4 True 13 NaN = Inr n \<and>
        0 \<le> delta n \<and> delta n < 10) \<and>
   (\<exists>n. GossipNode_init 0 (5::nat, None) 10 (7::nat) net4 False 13 (Finite (23 / 2)) = Inr n \<and>
        delta n = 11 \<and> 1 \<le> delta n) \<and>
   GossipNode_init 0 (5::nat, None) (2 ^ 63 + 1) (7::nat) net4 True 13 NaN = Inl ValueError \<and>
   GossipNode_init 0 (5::nat, None) (2 ^ 1024) (7::nat) net4 False 13 NaN = Inl OverflowError"
  using delta_at_construction [of 10 0 "(5::nat, None)" "7::nat" net4 13 NaN "23 / 2"]
    delta_at_construction [of "2 ^ 63 + 1" 0 "(5::nat, None)" "7::nat" net4 13 NaN 0]
    delta_at_construction [of "2 ^ 1024" 0 "(5::nat, None)" "7::nat" net4 13 NaN 0]
  by (simp add: py_int_def DBL_OVERFLOW_def)

text \<open>
  The claim as the specification words it fails: an asynchronous node with round length 1
  whose draw is 0.875, one and a quarter spreads below the mean, gets delta 0, and its
  \<open>timed_out\<close> then raises on the modulo by zero.
\<close>

theorem async_delta_not_clamped:
  "GossipNode_init 0 (5::nat, None) 1 (7::nat) net4 False 0 (Finite (7 / 8)) =
     Inr \<lparr>idx = 0, data = (5, None), round_len = 1, model_handler = 7, sync = False,
          delta = 0, p2p_net = net4\<rparr> \<and>
   timed_out \<lparr>idx = 0, data = (5::nat, None), round_len = 1, model_handler = 7::nat,
              sync = False, delta = 0, p2p_net = net4\<rparr> 5 = Inl ZeroDivisionError"
proof -
  have "real_of_int 1 < DBL_OVERFLOW" by (simp add: DBL_OVERFLOW_def)
  then have "GossipNode_init 0 (5::nat, None) 1 (7::nat) net4 False 0 (Finite (7 / 8)) =
     Inr \<lparr>idx = 0, data = (5, None), round_len = 1, model_handler = 7, sync = False,
          delta = py_int (7 / 8), p2p_net = net4\<rparr>"
    by (intro async_draw) simp_all
  then show ?thesis by (simp add: py_int_def timed_out_def py_mod_def)
qed

subsection \<open>The finger table\<close>

lemma finger_fold:
  "j \<le> m \<Longrightarrow>
   fold (finger_step i sz) [0..<j] (replicate m 1, 1, i) =
     (map (finger_entry i sz) [0..<j] @ replicate (m - j) 1, 2 ^ j,
      if j = 0 then i else finger_entry i sz (j - 1))"
proof (induction j)
  case 0
  then show ?case by simp
next
  case (Suc j)
  then have IH: "fold (finger_step i sz) [0..<j] (replicate m 1, 1, i) =
     (map (finger_entry i sz) [0..<j] @ replicate (m - j) 1, 2 ^ j,
      if j = 0 then i else finger_entry i sz (j - 1))" by simp
  from Suc.prems obtain r where r: "m - j = Suc r" "m - Suc j = r"
    by (metis Suc_diff_Suc Suc_le_lessD)
  have "fold (finger_step i sz) [0..<Suc j] (replicate m 1, 1, i) =
        finger_step i sz j (fold (finger_step i sz) [0..<j] (replicate m 1, 1, i))"
    by simp
  also have "\<dots> = finger_step i sz j
      (map (finger_entry i sz) [0..<j] @ replicate (m - j) 1, 2 ^ j,
       if j = 0 then i else finger_entry i sz (j - 1))"
    by (simp only: IH)
  also have "\<dots> = (map (finger_entry i sz) [0..<Suc j] @ replicate (m - Suc j) 1, 2 ^ Suc j,
      if Suc j = 0 then i else finger_entry i sz (Suc j - 1))"
    by (simp add: finger_step_def finger_entry_def Let_def r list_update_append)
  finally show ?case .
qed

lemma finger_loop_eq: "fst (finger_loop i sz m) = map (finger_entry i sz) [0..<m]"
  by (simp add: finger_loop_def finger_fold)

text \<open>How far below \<open>k\<close> the logarithm of \<open>2^k - 1\<close> can lie.\<close>

lemma log2_near_one:
  fixes n :: nat
  assumes "0 < n"
  shows "- 1 / real n \<le> log 2 (1 - 1 / (2 * real n))"
proof -
  let ?x = "1 - 1 / (2 * real n)"
  have pos: "0 < ?x" using assms by (simp add: field_simps)
  have "1 + real n * (- (1 / (2 * real n))) \<le> (1 + (- (1 / (2 * real n)))) ^ n"
    by (rule Bernoulli_inequality) (use assms in \<open>simp add: field_simps\<close>)
  then have "1 / 2 \<le> ?x ^ n" using assms by simp
  then have "log 2 (1 / 2) \<le> log 2 (?x ^ n)"
    using pos by (subst log_le_cancel_iff) simp_all
  also have "log 2 (?x ^ n) = real n * log 2 ?x"
    using pos by (simp add: log_nat_power)
  finally have "- 1 \<le> real n * log 2 ?x" by (simp add: log_divide)
  then show ?thesis using assms by (simp add: field_simps)
qed

lemma log2_below_power:
  fixes k :: nat
  shows "real (Suc k) - 1 / 2 ^ k \<le> log 2 (2 ^ Suc k - 1)"
    and "log 2 (2 ^ Suc k - 1) < real (Suc k)"
proof -
  let ?y = "1 - 1 / (2 * real ((2::nat) ^ k))"
  have p: "(1::real) \<le> 2 ^ k" by simp
  then have "1 < 2 * (2::real) ^ k" by linarith
  then have y: "0 < ?y" by (simp add: field_simps)
  have e: "(2::real) ^ Suc k - 1 = 2 ^ Suc k * ?y" by (simp add: field_simps)
  have "log 2 ((2::real) ^ Suc k * ?y) = log 2 (2 ^ Suc k) + log 2 ?y"
    using y by (subst log_mult) auto
  also have "log 2 ((2::real) ^ Suc k) = real (Suc k)"
    by (rule log_pow_cancel) simp_all
  finally have l: "log 2 ((2::real) ^ Suc k - 1) = real (Suc k) + log 2 ?y"
    by (simp only: e)
  have "- 1 / real ((2::nat) ^ k) \<le> log 2 ?y" by (rule log2_near_one) simp
  then show "real (Suc k) - 1 / 2 ^ k \<le> log 2 (2 ^ Suc k - 1)"
    unfolding l by simp
  have "?y < 1" by simp
  with y have "log 2 ?y < 0" by simp
  then show "log 2 (2 ^ Suc k - 1) < real (Suc k)" unfolding l by simp
qed

lemma log2_big_size:
  "49 - 1 / 2 ^ 48 \<le> log 2 562949953421311" "log 2 562949953421311 < 49"
  using log2_below_power [of 48] by simp_all

lemma double_of_big_size: "double_of_real 562949953421311 = 562949953421311"
proof -
  have "\<lfloor>log 2 (562949953421311::real)\<rfloor> = 48"
    by (subst floor_log_eq_powr_iff) simp_all
  then have e: "max \<lfloor>log 2 \<bar>562949953421311::real\<bar>\<rfloor> (- 1022) = 48" by simp
  have u: "(2::real) powr (of_int 48 - 52) = 1 / 2 ^ 4" by (simp add: powr_neg_numeral)
  have "(562949953421311::real) / (1 / 2 ^ 4) = of_int 9007199254740976" by simp
  then have "round_half_even ((562949953421311::real) / (1 / 2 ^ 4)) = 9007199254740976"
    by (simp only: round_half_even_of_int)
  then show ?thesis
    unfolding double_of_real_def Let_def e u by simp
qed

lemma double_of_log2_big_size: "double_of_real (log 2 562949953421311) = 49"
proof -
  let ?x = "log 2 (562949953421311::real)"
  note b = log2_big_size
  have nz: "?x \<noteq> 0" "\<bar>?x\<bar> = ?x" using b by simp_all
  have "\<lfloor>log 2 ?x\<rfloor> = 5"
    using b by (subst floor_log_eq_powr_iff) simp_all
  then have e: "max \<lfloor>log 2 \<bar>?x\<bar>\<rfloor> (- 1022) = 5" by (simp add: nz)
  have u: "(2::real) powr (of_int 5 - 52) = 1 / 2 ^ 47" by (simp add: powr_neg_numeral)
  have "round_half_even (?x / (1 / 2 ^ 47)) = 6896136929411072"
    using b by (intro round_half_even_near) simp_all
  then show ?thesis
    unfolding double_of_real_def Let_def e u using nz by simp
qed

lemma finger_len_big_size: "finger_len 562949953421311 = Inr 50"
  by (simp add: finger_len_def math_log2_def DBL_OVERFLOW_def double_of_big_size
      double_of_log2_big_size py_int_def)

text \<open>
  C3 fails on the code at a network of \<open>N = 2^49 - 1\<close> nodes, where \<open>\<lfloor>log2 N\<rfloor> + 1\<close> is
  49: the float \<open>math.log2(N)\<close> is 49.0, so the finger table of the node with index
  \<open>N - 1\<close> gets 50 entries, and the entry the last turn of the loop stores, the first of
  the stored table, is \<open>N\<close> itself, which is not the index of a node. The table is the one
  of the ChordNode constructed there.
\<close>

theorem finger_table_float_log2:
  "map_sum id length (finger_table 562949953421310 562949953421311) = Inr 50 \<and>
   map_sum id hd (finger_table 562949953421310 562949953421311) = Inr 562949953421311 \<and>
   nat \<lfloor>log 2 (real_of_int 562949953421311)\<rfloor> + 1 = 49 \<and>
   map_sum id finger
     (ChordNode_init 562949953421310 (5::nat, None) 10 (7::nat) net_big True 0 NaN) =
     finger_table 562949953421310 562949953421311"
proof -
  have t: "finger_table 562949953421310 562949953421311 =
      Inr (rev (map (finger_entry 562949953421310 562949953421311) [0..<50]))"
    by (simp add: finger_table_def finger_len_big_size finger_loop_eq)
  have l: "\<lfloor>log 2 (562949953421311::real)\<rfloor> = 48"
    by (subst floor_log_eq_powr_iff) simp_all
  have g: "GossipNode_init 562949953421310 (5::nat, None) 10 (7::nat) net_big True 0 NaN =
      Inr \<lparr>idx = 562949953421310, data = (5, None), round_len = 10, model_handler = 7,
           sync = True, delta = 0, p2p_net = net_big\<rparr>"
    by (simp add: GossipNode_init_def randint_def)
  have n: "net_size net_big = 562949953421311" by (simp add: net_big_def)
  show ?thesis
    unfolding ChordNode_init_def g n t
    by (simp add: l hd_rev last_map finger_entry_def)
qed

subsection \<open>Sending\<close>

text \<open>
  C7. \<open>send\<close> with a protocol outside the variant's set (the base node: outside PUSH,
  PULL, PUSH_PULL; ChordNode and All2AllGossipNode: anything but PUSH) raises the
  ValueError that reports an unsupported protocol, and the node and the cache are then
  exactly what they were: no snapshot was cached and no message built.
\<close>

theorem unsupported_protocol_fails:
  "(protocol \<notin> {PUSH, PULL, PUSH_PULL} \<longrightarrow> send n c t peer protocol = (n, c, Inl ValueError)) \<and>
   (protocol \<noteq> PUSH \<longrightarrow>
      Chord_send cn c t sndr peer protocol limit = (cn, c, Inl ValueError)) \<and>
   (protocol \<noteq> PUSH \<longrightarrow> All2All_send an c t peer protocol = (an, c, Inl ValueError))"
  by (simp add: send_def Chord_send_def All2All_send_def)

theorem unsupported_protocol_fails_witness:
  "send node0 cache0 5 2 OTHER_PROTOCOL = (node0, cache0, Inl ValueError) \<and>
   Chord_send chord0 cache0 5 0 2 PULL 3 = (chord0, cache0, Inl ValueError) \<and>
   All2All_send a2a0 cache0 5 2 PUSH_PULL = (a2a0, cache0, Inl ValueError)"
  using unsupported_protocol_fails [of OTHER_PROTOCOL node0 cache0 5 2 chord0 0 3 a2a0]
    unsupported_protocol_fails [of PULL node0 cache0 5 2 chord0 0 3 a2a0]
    unsupported_protocol_fails [of PUSH_PULL node0 cache0 5 2 chord0 0 3 a2a0]
  by simp

text \<open>
  C8. For the base node, \<open>send\<close> with PUSH or PUSH_PULL calls \<open>caching\<close>, which puts
  the current model into the cache, and the payload of the message is exactly the key
  \<open>caching\<close> returned; with PULL the message has no payload and the cache is untouched.
  The message has timestamp \<open>t\<close>, the node's index as sender, \<open>peer\<close> as receiver and the
  type of the protocol asked for.
\<close>

theorem send_messages:
  "(protocol = PUSH \<or> protocol = PUSH_PULL \<longrightarrow>
      (\<exists>key c'. caching (model_handler n) (idx n) c = (key, c') \<and>
         map_of (entries c') key = Some (model_handler n) \<and>
         send n c t peer protocol =
           (n, c', Inr \<lparr>m_timestamp = t, m_sender = idx n, m_receiver = peer,
                        m_type = (if protocol = PUSH then MsgPUSH else MsgPUSH_PULL),
                        m_value = Some [KeyV key]\<rparr>))) \<and>
   send n c t peer PULL =
     (n, c, Inr \<lparr>m_timestamp = t, m_sender = idx n, m_receiver = peer,
                 m_type = MsgPULL, m_value = None\<rparr>)"
  by (auto simp: send_def caching_def Cache_put_def AList.update_conv')

theorem send_messages_witness:
  "send node0 cache0 5 2 PUSH =
     (node0, \<lparr>entries = [(0, 11), (1, 12), (2, 7)], next_key = 3\<rparr>,
      Inr \<lparr>m_timestamp = 5, m_sender = 0, m_receiver = 2, m_type = MsgPUSH,
           m_value = Some [KeyV 2]\<rparr>) \<and>
   send node0 cache0 5 2 PUSH_PULL =
     (node0, \<lparr>entries = [(0, 11), (1, 12), (2, 7)], next_key = 3\<rparr>,
      Inr \<lparr>m_timestamp = 5, m_sender = 0, m_receiver = 2, m_type = MsgPUSH_PULL,
           m_value = Some [KeyV 2]\<rparr>)"
  using send_messages [of PUSH node0 cache0 5 2] send_messages [of PUSH_PULL node0 cache0 5 2]
  by (simp add: caching_def Cache_put_def cache0_def node0_def)

subsection \<open>Receiving\<close>

lemma Cache_pop_hit:
  "map_of (entries c) k = Some v \<Longrightarrow>
   Cache_pop c (Some (KeyV k)) = (c\<lparr>entries := AList.delete k (entries c)\<rparr>, Inr v)"
  by (simp add: Cache_pop_def)

lemma Cache_pop_cases:
  "(\<exists>k v. x = Some (KeyV k) \<and> map_of (entries c) k = Some v \<and>
       Cache_pop c x = (c\<lparr>entries := AList.delete k (entries c)\<rparr>, Inr v)) \<or>
   Cache_pop c x = (c, Inl CacheMiss)"
  by (auto simp: Cache_pop_def split: option.splits item.splits)

text \<open>
  C5. For the base node and a message whose payload starts with a key that is in the cache:
  on PUSH, REPLY and PUSH_PULL \<open>receive\<close> pops the key, which is gone afterwards, and the
  handler is called on the popped snapshot and the training data; on PULL and PUSH_PULL
  it caches the model as it is by then (after the merge for PUSH_PULL) and returns a REPLY
  to the sender of the message that carries the new key, under which the cache holds that
  model; on any other type it returns \<open>None\<close> and changes nothing.
\<close>

theorem receive_by_type:
  "(m_type msg \<in> {MsgPUSH, MsgREPLY, MsgPUSH_PULL} \<and>
    value0 (m_value msg) = Some (KeyV k) \<and> map_of (entries c) k = Some v \<longrightarrow>
      (\<exists>n1 c1. n1 = n\<lparr>model_handler := hcall (model_handler n) v (fst (data n))\<rparr> \<and>
         c1 = c\<lparr>entries := AList.delete k (entries c)\<rparr> \<and>
         map_of (entries c1) k = None \<and>
         receive hcall n c t msg =
           (if m_type msg = MsgPUSH_PULL
            then (n1, snd (caching (model_handler n1) (idx n) c1),
                  Inr (Some \<lparr>m_timestamp = t, m_sender = idx n, m_receiver = m_sender msg,
                             m_type = MsgREPLY,
                             m_value = Some [KeyV (fst (caching (model_handler n1) (idx n) c1))]\<rparr>))
            else (n1, c1, Inr None)))) \<and>
   (m_type msg = MsgPULL \<longrightarrow>
      receive hcall n c t msg =
        (n, snd (caching (model_handler n) (idx n) c),
         Inr (Some \<lparr>m_timestamp = t, m_sender = idx n, m_receiver = m_sender msg,
                    m_type = MsgREPLY,
                    m_value = Some [KeyV (fst (caching (model_handler n) (idx n) c))]\<rparr>))) \<and>
   (m_type msg = MsgOTHER \<longrightarrow> receive hcall n c t msg = (n, c, Inr None)) \<and>
   map_of (entries (snd (caching h i c))) (fst (caching h i c)) = Some h"
  by (auto simp: receive_def Cache_pop_hit Let_def AList.delete_conv' caching_def Cache_put_def
      AList.update_conv' split: prod.splits)

theorem receive_by_type_witness:
  "receive hcall0 node0 cache0 6 (push_msg 1 MsgPUSH 0) =
     (node0\<lparr>model_handler := 23\<rparr>, \<lparr>entries = [(1, 12)], next_key = 2\<rparr>, Inr None) \<and>
   receive hcall0 node0 cache0 6 (push_msg 1 MsgPUSH_PULL 0) =
     (node0\<lparr>model_handler := 23\<rparr>, \<lparr>entries = [(1, 12), (2, 23)], next_key = 3\<rparr>,
      Inr (Some \<lparr>m_timestamp = 6, m_sender = 0, m_receiver = 1, m_type = MsgREPLY,
                 m_value = Some [KeyV 2]\<rparr>)) \<and>
   receive hcall0 node0 cache0 6 (push_msg 1 MsgPULL 0) =
     (node0, \<lparr>entries = [(0, 11), (1, 12), (2, 7)], next_key = 3\<rparr>,
      Inr (Some \<lparr>m_timestamp = 6, m_sender = 0, m_receiver = 1, m_type = MsgREPLY,
                 m_value = Some [KeyV 2]\<rparr>)) \<and>
   receive hcall0 node0 cache0 6 (push_msg 1 MsgOTHER 0) = (node0, cache0, Inr None)"
  using receive_by_type [of "push_msg 1 MsgPUSH 0" 0 cache0 11 hcall0 node0 6 7 0]
    receive_by_type [of "push_msg 1 MsgPUSH_PULL 0" 0 cache0 11 hcall0 node0 6 7 0]
    receive_by_type [of "push_msg 1 MsgPULL 0" 0 cache0 11 hcall0 node0 6 7 0]
    receive_by_type [of "push_msg 1 MsgOTHER 0" 0 cache0 11 hcall0 node0 6 7 0]
  by (simp add: push_msg_def value0_def cache0_def node0_def hcall0_def caching_def
      Cache_put_def AList.delete_eq)

subsection \<open>Receiving with a local cache\<close>

lemma Chord_receive_result:
  "Chord_receive n c t msg =
     (if m_type msg = MsgPUSH then
        (case map_of (local_cache n) (m_sender msg) of
           Some stale \<Rightarrow>
             if idx n = m_limit msg then
               (case Cache_pop c stale of
                  (c1, Inl e) \<Rightarrow> (n, c1, Inl e)
                | (c1, Inr v) \<Rightarrow>
                    (n\<lparr>local_cache :=
                         AList.update (m_sender msg) (value0 (m_value msg)) (local_cache n)\<rparr>,
                     c1, Inr None))
             else (n\<lparr>local_cache :=
                        AList.update (m_sender msg) (value0 (m_value msg)) (local_cache n)\<rparr>,
                   c, Inr None)
         | None \<Rightarrow>
             (n\<lparr>local_cache :=
                  AList.update (m_sender msg) (value0 (m_value msg)) (local_cache n)\<rparr>,
              c, Inr None))
      else (n, c, Inr None))"
  by (auto simp: Chord_receive_def Let_def split: option.splits prod.splits sum.splits)

lemma All2All_receive_result:
  "All2All_receive n c t msg =
     (if m_type msg = MsgPUSH then
        (case map_of (a2a_local_cache n) (m_sender msg) of
           Some stale \<Rightarrow>
             (case Cache_pop c stale of
                (c1, Inl e) \<Rightarrow> (n, c1, Inl e)
              | (c1, Inr v) \<Rightarrow>
                  (n\<lparr>a2a_local_cache :=
                       AList.update (m_sender msg) (value0 (m_value msg)) (a2a_local_cache n)\<rparr>,
                   c1, Inr None))
         | None \<Rightarrow>
             (n\<lparr>a2a_local_cache :=
                  AList.update (m_sender msg) (value0 (m_value msg)) (a2a_local_cache n)\<rparr>,
              c, Inr None))
      else (n, c, Inr None))"
  by (auto simp: All2All_receive_def Let_def split: option.splits prod.splits sum.splits)

text \<open>
  C10. \<open>receive\<close> of a ChordNode and of an All2AllGossipNode never returns a reply:
  whatever it returns is \<open>None\<close>. A message that is not a PUSH is ignored without a
  raise, with the node (its local cache and handler) and the shared cache unchanged. The
  one raise there is comes from a PUSH whose sender has a stale entry to release that the
  cache no longer holds.
\<close>

theorem local_cache_receive_no_reply:
  "(m_type msg \<noteq> MsgPUSH \<longrightarrow> Chord_receive n c t msg = (n, c, Inr None)) \<and>
   (m_type amsg \<noteq> MsgPUSH \<longrightarrow> All2All_receive an c t amsg = (an, c, Inr None)) \<and>
   (\<forall>n' c' r. Chord_receive n c t msg = (n', c', Inr r) \<longrightarrow> r = None) \<and>
   (\<forall>n' c' r. All2All_receive an c t amsg = (n', c', Inr r) \<longrightarrow> r = None) \<and>
   (\<forall>n' c' e. Chord_receive n c t msg = (n', c', Inl e) \<longrightarrow>
        e = CacheMiss \<and> n' = n \<and> c' = c \<and> m_type msg = MsgPUSH \<and> idx n = m_limit msg \<and>
        (\<exists>stale. map_of (local_cache n) (m_sender msg) = Some stale \<and>
                  Cache_pop c stale = (c, Inl CacheMiss))) \<and>
   (\<forall>n' c' e. All2All_receive an c t amsg = (n', c', Inl e) \<longrightarrow>
        e = CacheMiss \<and> n' = an \<and> c' = c \<and> m_type amsg = MsgPUSH \<and>
        (\<exists>stale. map_of (a2a_local_cache an) (m_sender amsg) = Some stale \<and>
                  Cache_pop c stale = (c, Inl CacheMiss)))"
proof (intro conjI allI impI)
  fix n' c' e
  assume a: "Chord_receive n c t msg = (n', c', Inl e)"
  then obtain stale where s: "m_type msg = MsgPUSH" "idx n = m_limit msg"
      "map_of (local_cache n) (m_sender msg) = Some stale"
    by (auto simp: Chord_receive_result split: if_splits option.splits)
  from a s Cache_pop_cases [of stale c]
  show "e = CacheMiss" "n' = n" "c' = c" "m_type msg = MsgPUSH" "idx n = m_limit msg"
    "\<exists>stale. map_of (local_cache n) (m_sender msg) = Some stale \<and>
             Cache_pop c stale = (c, Inl CacheMiss)"
    by (auto simp: Chord_receive_result)
next
  fix n' c' e
  assume a: "All2All_receive an c t amsg = (n', c', Inl e)"
  then obtain stale where s: "m_type amsg = MsgPUSH"
      "map_of (a2a_local_cache an) (m_sender amsg) = Some stale"
    by (auto simp: All2All_receive_result split: if_splits option.splits)
  from a s Cache_pop_cases [of stale c]
  show "e = CacheMiss" "n' = an" "c' = c" "m_type amsg = MsgPUSH"
    "\<exists>stale. map_of (a2a_local_cache an) (m_sender amsg) = Some stale \<and>
             Cache_pop c stale = (c, Inl CacheMiss)"
    by (auto simp: All2All_receive_result)
qed (auto simp: Chord_receive_result All2All_receive_result
       split: if_splits option.splits prod.splits sum.splits)

theorem local_cache_receive_no_reply_witness:
  "Chord_receive chord0 cache0 6 (chord_msg 2 MsgPULL 1 0) = (chord0, cache0, Inr None) \<and>
   All2All_receive a2a0 cache0 6 (push_msg 2 MsgPUSH_PULL 1) = (a2a0, cache0, Inr None) \<and>
   Chord_receive chord0 cache0 6 (chord_msg 2 MsgPUSH 1 0) =
     (chord0\<lparr>local_cache := [(1, Some (KeyV 0)), (2, Some (KeyV 1))]\<rparr>, cache0, Inr None) \<and>
   All2All_receive a2a0 cache0 6 (push_msg 2 MsgPUSH 1) =
     (a2a0\<lparr>a2a_local_cache := [(1, Some (KeyV 0)), (2, Some (KeyV 1))]\<rparr>, cache0, Inr None)"
  using local_cache_receive_no_reply
    [of "chord_msg 2 MsgPULL 1 0" chord0 cache0 6 "push_msg 2 MsgPUSH_PULL 1" a2a0]
  by (simp add: Chord_receive_result All2All_receive_result chord_msg_def push_msg_def
      chord0_def a2a0_def value0_def)

text \<open>
  C1, as the code has it. When a PUSH arrives from a sender that has a pending entry whose
  key is in the cache, an All2AllGossipNode pops that key before it stores the new one;
  a ChordNode pops it only when its own index is the message's \<open>limit\<close>, and otherwise
  stores the new key over the old one and leaves the old snapshot in the cache. In both
  variants a \<open>receive\<close> keeps the local cache at one entry for each sender at most.
\<close>

theorem stale_entry_release:
  "(m_type amsg = MsgPUSH \<and> map_of (a2a_local_cache an) (m_sender amsg) = Some (Some (KeyV k)) \<and>
    map_of (entries c) k = Some v \<longrightarrow>
      All2All_receive an c t amsg =
        (an\<lparr>a2a_local_cache :=
              AList.update (m_sender amsg) (value0 (m_value amsg)) (a2a_local_cache an)\<rparr>,
         c\<lparr>entries := AList.delete k (entries c)\<rparr>, Inr None)) \<and>
   (m_type msg = MsgPUSH \<and> map_of (local_cache n) (m_sender msg) = Some (Some (KeyV k)) \<and>
    map_of (entries c) k = Some v \<longrightarrow>
      Chord_receive n c t msg =
        (n\<lparr>local_cache := AList.update (m_sender msg) (value0 (m_value msg)) (local_cache n)\<rparr>,
         if idx n = m_limit msg then c\<lparr>entries := AList.delete k (entries c)\<rparr> else c,
         Inr None)) \<and>
   (distinct (map fst (a2a_local_cache an)) \<longrightarrow>
      distinct (map fst (a2a_local_cache (fst (All2All_receive an c t amsg))))) \<and>
   (distinct (map fst (local_cache n)) \<longrightarrow>
      distinct (map fst (local_cache (fst (Chord_receive n c t msg)))))"
  by (auto simp: All2All_receive_result Chord_receive_result Cache_pop_hit distinct_update
      split: option.splits prod.splits sum.splits)

theorem stale_entry_release_witness:
  "All2All_receive a2a0 cache0 6 (push_msg 1 MsgPUSH 1) =
     (a2a0\<lparr>a2a_local_cache := [(1, Some (KeyV 1))]\<rparr>, \<lparr>entries = [(1, 12)], next_key = 2\<rparr>,
      Inr None) \<and>
   Chord_receive chord0 cache0 6 (chord_msg 1 MsgPUSH 1 0) =
     (chord0\<lparr>local_cache := [(1, Some (KeyV 1))]\<rparr>, \<lparr>entries = [(1, 12)], next_key = 2\<rparr>,
      Inr None) \<and>
   distinct (map fst (a2a_local_cache (fst (All2All_receive a2a0 cache0 6 (push_msg 1 MsgPUSH 1))))) \<and>
   distinct (map fst (local_cache (fst (Chord_receive chord0 cache0 6 (chord_msg 1 MsgPUSH 1 0)))))"
  using stale_entry_release [of "push_msg 1 MsgPUSH 1" a2a0 0 cache0 11 6
      "chord_msg 1 MsgPUSH 1 0" chord0]
  by (simp add: push_msg_def chord_msg_def a2a0_def chord0_def cache0_def value0_def
      AList.delete_eq)

text \<open>
  The claim as the specification words it fails for the ChordNode: node 0 holds key 0 for
  sender 1, a PUSH of sender 1 with limit 3 replaces the entry by key 1, and the cache is
  what it was, the snapshot under key 0 still in it and no local cache pointing to it.
\<close>

theorem chord_stale_entry_leaked:
  "Chord_receive chord0 cache0 6 (chord_msg 1 MsgPUSH 1 3) =
     (chord0\<lparr>local_cache := [(1, Some (KeyV 1))]\<rparr>, cache0, Inr None) \<and>
   map_of (local_cache chord0) 1 = Some (Some (KeyV 0)) \<and>
   map_of (entries cache0) 0 = Some 11"
  by (simp add: Chord_receive_result chord_msg_def chord0_def cache0_def value0_def)

subsection \<open>The batched merge at a timeout\<close>

lemma pop_all_hits:
  "distinct ks \<Longrightarrow> map (map_of (entries c)) ks = map Some vs \<Longrightarrow>
   pop_all c (map (\<lambda>k. Some (KeyV k)) ks) =
     (c\<lparr>entries := fold AList.delete ks (entries c)\<rparr>, Inr vs)"
proof (induction ks arbitrary: c vs)
  case Nil
  then show ?case by simp
next
  case (Cons k ks)
  from Cons.prems(2) obtain v vs' where vs: "vs = v # vs'"
      and hit: "map_of (entries c) k = Some v"
      and rest: "map (map_of (entries c)) ks = map Some vs'"
    by (cases vs) auto
  let ?c1 = "c\<lparr>entries := AList.delete k (entries c)\<rparr>"
  from Cons.prems(1) have nk: "k \<notin> set ks" and d: "distinct ks" by simp_all
  have "map (map_of (entries ?c1)) ks = map (map_of (entries c)) ks"
    using nk by (auto simp: AList.delete_conv')
  with rest have "map (map_of (entries ?c1)) ks = map Some vs'" by simp
  from Cons.IH [OF d this]
  show ?case by (simp add: Cache_pop_hit [OF hit] vs)
qed

lemma map_of_fold_delete:
  "map_of (fold AList.delete ks e) k = (if k \<in> set ks then None else map_of e k)"
  by (induction ks arbitrary: e) (auto simp: AList.delete_conv')

lemma Chord_receive_local_cache:
  "Chord_receive n c t msg = (n', c', Inr r) \<Longrightarrow>
   local_cache n' =
     (if m_type msg = MsgPUSH
      then AList.update (m_sender msg) (value0 (m_value msg)) (local_cache n)
      else local_cache n)"
  by (auto simp: Chord_receive_result split: if_splits option.splits prod.splits sum.splits)

lemma All2All_receive_local_cache:
  "All2All_receive n c t msg = (n', c', Inr r) \<Longrightarrow>
   a2a_local_cache n' =
     (if m_type msg = MsgPUSH
      then AList.update (m_sender msg) (value0 (m_value msg)) (a2a_local_cache n)
      else a2a_local_cache n)"
  by (auto simp: All2All_receive_result split: if_splits option.splits prod.splits sum.splits)

lemma Chord_receive_senders:
  assumes "Chord_receive n c t msg = (n', c', Inr r)"
  shows "fst ` set (local_cache n') =
           fst ` set (local_cache n) \<union> (if m_type msg = MsgPUSH then {m_sender msg} else {})"
    and "distinct (map fst (local_cache n)) \<Longrightarrow> distinct (map fst (local_cache n'))"
  by (simp_all add: Chord_receive_local_cache [OF assms] AList.dom_update distinct_update)

lemma All2All_receive_senders:
  assumes "All2All_receive n c t msg = (n', c', Inr r)"
  shows "fst ` set (a2a_local_cache n') =
           fst ` set (a2a_local_cache n) \<union> (if m_type msg = MsgPUSH then {m_sender msg} else {})"
    and "distinct (map fst (a2a_local_cache n)) \<Longrightarrow> distinct (map fst (a2a_local_cache n'))"
  by (simp_all add: All2All_receive_local_cache [OF assms] AList.dom_update distinct_update)

lemma push_senders_Cons:
  "push_senders (tm # ms) =
     (if m_type (snd tm) = MsgPUSH then {m_sender (snd tm)} else {}) \<union> push_senders ms"
  unfolding push_senders_def by (cases tm) force

lemma Chord_receive_all_senders:
  "Chord_receive_all n c ms = (n', c', Inr u) \<Longrightarrow>
   fst ` set (local_cache n') = fst ` set (local_cache n) \<union> push_senders ms \<and>
   (distinct (map fst (local_cache n)) \<longrightarrow> distinct (map fst (local_cache n')))"
proof (induction ms arbitrary: n c)
  case Nil
  then show ?case by (simp add: push_senders_def)
next
  case (Cons tm ms)
  from Cons.prems obtain n1 c1 r where
    step: "Chord_receive n c (fst tm) (snd tm) = (n1, c1, Inr r)"
    and rest: "Chord_receive_all n1 c1 ms = (n', c', Inr u)"
    by (auto split: prod.splits sum.splits)
  from Cons.IH [OF rest] Chord_receive_senders [OF step]
  show ?case by (auto simp: push_senders_Cons)
qed

lemma All2All_receive_all_senders:
  "All2All_receive_all n c ms = (n', c', Inr u) \<Longrightarrow>
   fst ` set (a2a_local_cache n') = fst ` set (a2a_local_cache n) \<union> push_senders ms \<and>
   (distinct (map fst (a2a_local_cache n)) \<longrightarrow> distinct (map fst (a2a_local_cache n')))"
proof (induction ms arbitrary: n c)
  case Nil
  then show ?case by (simp add: push_senders_def)
next
  case (Cons tm ms)
  from Cons.prems obtain n1 c1 r where
    step: "All2All_receive n c (fst tm) (snd tm) = (n1, c1, Inr r)"
    and rest: "All2All_receive_all n1 c1 ms = (n', c', Inr u)"
    by (auto split: prod.splits sum.splits)
  from Cons.IH [OF rest] All2All_receive_senders [OF step]
  show ?case by (auto simp: push_senders_Cons)
qed

text \<open>
  C4. For a ChordNode and an All2AllGossipNode whose pending entries are keys, each of
  another snapshot in the cache: \<open>timed_out(t, weights)\<close> returns what the base
  \<open>timed_out(t)\<close> returns (and raises what it raises). When that is true and the local
  cache is not empty, every pending key is popped from the cache, where none of them is
  left, the handler is called once on all the popped snapshots, in the order of the local
  cache, with the training data and the weights, and the local cache is empty afterwards.
  When it is false or the local cache is empty, the node and the cache are unchanged.
  What is merged at a firing is one entry for each sender of a PUSH received since the
  local cache was last emptied: after such a run of receives the senders of the local
  cache are distinct and are exactly those senders.
\<close>

theorem batched_merge_on_timeout:
  "(map snd (local_cache n) = map (\<lambda>k. Some (KeyV k)) ks \<and> distinct ks \<and>
    map (map_of (entries c)) ks = map Some vs \<longrightarrow>
      Chord_timed_out hcallw n c t w =
        (case timed_out n t of
           Inl e \<Rightarrow> (n, c, Inl e)
         | Inr tout \<Rightarrow>
             if tout \<and> local_cache n \<noteq> [] then
               (n\<lparr>model_handler := hcallw (model_handler n) vs (fst (data n)) w,
                  local_cache := []\<rparr>,
                c\<lparr>entries := fold AList.delete ks (entries c)\<rparr>, Inr True)
             else (n, c, Inr tout))) \<and>
   (map snd (a2a_local_cache an) = map (\<lambda>k. Some (KeyV k)) ks \<and> distinct ks \<and>
    map (map_of (entries c)) ks = map Some vs \<longrightarrow>
      All2All_timed_out hcallw an c t w =
        (case timed_out an t of
           Inl e \<Rightarrow> (an, c, Inl e)
         | Inr tout \<Rightarrow>
             if tout \<and> a2a_local_cache an \<noteq> [] then
               (an\<lparr>model_handler := hcallw (model_handler an) vs (fst (data an)) w,
                   a2a_local_cache := []\<rparr>,
                c\<lparr>entries := fold AList.delete ks (entries c)\<rparr>, Inr True)
             else (an, c, Inr tout))) \<and>
   (\<forall>k \<in> set ks. map_of (fold AList.delete ks (entries c)) k = None) \<and>
   (local_cache n0 = [] \<and> Chord_receive_all n0 c0 ms = (n, c, Inr ()) \<longrightarrow>
      distinct (map fst (local_cache n)) \<and> fst ` set (local_cache n) = push_senders ms) \<and>
   (a2a_local_cache an0 = [] \<and> All2All_receive_all an0 c0 ams = (an, c, Inr ()) \<longrightarrow>
      distinct (map fst (a2a_local_cache an)) \<and>
      fst ` set (a2a_local_cache an) = push_senders ams)"
proof (intro conjI impI ballI)
  assume "map snd (local_cache n) = map (\<lambda>k. Some (KeyV k)) ks \<and> distinct ks \<and>
    map (map_of (entries c)) ks = map Some vs"
  then show "Chord_timed_out hcallw n c t w =
        (case timed_out n t of
           Inl e \<Rightarrow> (n, c, Inl e)
         | Inr tout \<Rightarrow>
             if tout \<and> local_cache n \<noteq> [] then
               (n\<lparr>model_handler := hcallw (model_handler n) vs (fst (data n)) w,
                  local_cache := []\<rparr>,
                c\<lparr>entries := fold AList.delete ks (entries c)\<rparr>, Inr True)
             else (n, c, Inr tout))"
    by (simp add: Chord_timed_out_def pop_all_hits split: sum.splits)
next
  assume "map snd (a2a_local_cache an) = map (\<lambda>k. Some (KeyV k)) ks \<and> distinct ks \<and>
    map (map_of (entries c)) ks = map Some vs"
  then show "All2All_timed_out hcallw an c t w =
        (case timed_out an t of
           Inl e \<Rightarrow> (an, c, Inl e)
         | Inr tout \<Rightarrow>
             if tout \<and> a2a_local_cache an \<noteq> [] then
               (an\<lparr>model_handler := hcallw (model_handler an) vs (fst (data an)) w,
                   a2a_local_cache := []\<rparr>,
                c\<lparr>entries := fold AList.delete ks (entries c)\<rparr>, Inr True)
             else (an, c, Inr tout))"
    by (simp add: All2All_timed_out_def pop_all_hits split: sum.splits)
next
  fix k assume "k \<in> set ks"
  then show "map_of (fold AList.delete ks (entries c)) k = None"
    by (simp add: map_of_fold_delete)
next
  assume a: "local_cache n0 = [] \<and> Chord_receive_all n0 c0 ms = (n, c, Inr ())"
  with Chord_receive_all_senders [of n0 c0 ms n c "()"]
  show "distinct (map fst (local_cache n))" "fst ` set (local_cache n) = push_senders ms"
    by simp_all
next
  assume a: "a2a_local_cache an0 = [] \<and> All2All_receive_all an0 c0 ams = (an, c, Inr ())"
  with All2All_receive_all_senders [of an0 c0 ams an c "()"]
  show "distinct (map fst (a2a_local_cache an))"
    "fst ` set (a2a_local_cache an) = push_senders ams"
    by simp_all
qed


theorem batched_merge_on_timeout_witness:
  "All2All_receive_all (a2a0\<lparr>a2a_local_cache := []\<rparr>) cache0
       [(4, push_msg 1 MsgPUSH 0), (5, push_msg 2 MsgPUSH 1)] =
     (a2a0\<lparr>a2a_local_cache := pending2\<rparr>, cache0, Inr ()) \<and>
   Chord_receive_all (chord0\<lparr>local_cache := []\<rparr>) cache0
       [(4, chord_msg 1 MsgPUSH 0 3), (5, chord_msg 2 MsgPUSH 1 3)] =
     (chord0\<lparr>local_cache := pending2\<rparr>, cache0, Inr ()) \<and>
   fst ` set pending2 = push_senders [(4, push_msg 1 MsgPUSH 0), (5, push_msg 2 MsgPUSH 1)] \<and>
   All2All_timed_out hcallw0 (a2a0\<lparr>a2a_local_cache := pending2\<rparr>) cache0 13 2 =
     (a2a0\<lparr>model_handler := 58, a2a_local_cache := []\<rparr>, \<lparr>entries = [], next_key = 2\<rparr>,
      Inr True) \<and>
   Chord_timed_out hcallw0 (chord0\<lparr>local_cache := pending2\<rparr>) cache0 13 2 =
     (chord0\<lparr>model_handler := 58, local_cache := []\<rparr>, \<lparr>entries = [], next_key = 2\<rparr>,
      Inr True) \<and>
   All2All_timed_out hcallw0 (a2a0\<lparr>a2a_local_cache := pending2\<rparr>) cache0 14 2 =
     (a2a0\<lparr>a2a_local_cache := pending2\<rparr>, cache0, Inr False) \<and>
   Chord_timed_out hcallw0 (chord0\<lparr>local_cache := []\<rparr>) cache0 13 2 =
     (chord0\<lparr>local_cache := []\<rparr>, cache0, Inr True)"
proof -
  have ra: "All2All_receive_all (a2a0\<lparr>a2a_local_cache := []\<rparr>) cache0
       [(4, push_msg 1 MsgPUSH 0), (5, push_msg 2 MsgPUSH 1)] =
     (a2a0\<lparr>a2a_local_cache := pending2\<rparr>, cache0, Inr ())"
    by (simp add: All2All_receive_result push_msg_def a2a0_def value0_def pending2_def)
  have rc: "Chord_receive_all (chord0\<lparr>local_cache := []\<rparr>) cache0
       [(4, chord_msg 1 MsgPUSH 0 3), (5, chord_msg 2 MsgPUSH 1 3)] =
     (chord0\<lparr>local_cache := pending2\<rparr>, cache0, Inr ())"
    by (simp add: Chord_receive_result chord_msg_def chord0_def value0_def pending2_def)
  have t13: "timed_out (a2a0\<lparr>a2a_local_cache := pending2\<rparr>) 13 = Inr True"
    "timed_out (chord0\<lparr>local_cache := pending2\<rparr>) 13 = Inr True"
    "timed_out (chord0\<lparr>local_cache := []\<rparr>) 13 = Inr True"
    "timed_out (a2a0\<lparr>a2a_local_cache := pending2\<rparr>) 14 = Inr False"
    by (simp_all add: timed_out_def py_mod_def a2a0_def chord0_def)
  let ?cn = "chord0\<lparr>local_cache := pending2\<rparr>"
  let ?an = "a2a0\<lparr>a2a_local_cache := pending2\<rparr>"
  let ?ms = "[(4, chord_msg 1 MsgPUSH 0 3), (5, chord_msg 2 MsgPUSH 1 3)]"
  let ?ams = "[(4, push_msg 1 MsgPUSH 0), (5, push_msg 2 MsgPUSH 1)]"
  note inst = batched_merge_on_timeout
    [where n = ?cn and an = ?an and ks = "[0, 1]" and vs = "[11, 12]" and c = cache0
       and hcallw = hcallw0 and w = 2
       and ?n0.0 = "chord0\<lparr>local_cache := []\<rparr>" and ?an0.0 = "a2a0\<lparr>a2a_local_cache := []\<rparr>"
       and ?c0.0 = cache0 and ms = ?ms and ams = ?ams]
  have c13: "Chord_timed_out hcallw0 ?cn cache0 13 2 =
     (chord0\<lparr>model_handler := 58, local_cache := []\<rparr>, \<lparr>entries = [], next_key = 2\<rparr>,
      Inr True)"
  proof -
    have "Chord_timed_out hcallw0 ?cn cache0 13 2 =
        (case timed_out ?cn 13 of
           Inl e \<Rightarrow> (?cn, cache0, Inl e)
         | Inr tout \<Rightarrow>
             if tout \<and> local_cache ?cn \<noteq> [] then
               (?cn\<lparr>model_handler := hcallw0 (model_handler ?cn) [11, 12] (fst (data ?cn)) 2,
                  local_cache := []\<rparr>,
                cache0\<lparr>entries := fold AList.delete [0, 1] (entries cache0)\<rparr>, Inr True)
             else (?cn, cache0, Inr tout))"
      by (rule inst [where t = 13, THEN conjunct1, THEN mp]) (simp add: pending2_def cache0_def)
    then show ?thesis
      by (simp add: timed_out_def py_mod_def pending2_def hcallw0_def chord0_def a2a0_def
          cache0_def AList.delete_eq)
  qed
  have a13: "All2All_timed_out hcallw0 ?an cache0 13 2 =
     (a2a0\<lparr>model_handler := 58, a2a_local_cache := []\<rparr>, \<lparr>entries = [], next_key = 2\<rparr>,
      Inr True)"
  proof -
    have "All2All_timed_out hcallw0 ?an cache0 13 2 =
        (case timed_out ?an 13 of
           Inl e \<Rightarrow> (?an, cache0, Inl e)
         | Inr tout \<Rightarrow>
             if tout \<and> a2a_local_cache ?an \<noteq> [] then
               (?an\<lparr>model_handler := hcallw0 (model_handler ?an) [11, 12] (fst (data ?an)) 2,
                   a2a_local_cache := []\<rparr>,
                cache0\<lparr>entries := fold AList.delete [0, 1] (entries cache0)\<rparr>, Inr True)
             else (?an, cache0, Inr tout))"
      by (rule inst [where t = 13, THEN conjunct2, THEN conjunct1, THEN mp]) (simp add: pending2_def cache0_def)
    then show ?thesis
      by (simp add: timed_out_def py_mod_def pending2_def hcallw0_def chord0_def a2a0_def
          cache0_def AList.delete_eq)
  qed
  have a14: "All2All_timed_out hcallw0 ?an cache0 14 2 = (?an, cache0, Inr False)"
  proof -
    have "All2All_timed_out hcallw0 ?an cache0 14 2 =
        (case timed_out ?an 14 of
           Inl e \<Rightarrow> (?an, cache0, Inl e)
         | Inr tout \<Rightarrow>
             if tout \<and> a2a_local_cache ?an \<noteq> [] then
               (?an\<lparr>model_handler := hcallw0 (model_handler ?an) [11, 12] (fst (data ?an)) 2,
                   a2a_local_cache := []\<rparr>,
                cache0\<lparr>entries := fold AList.delete [0, 1] (entries cache0)\<rparr>, Inr True)
             else (?an, cache0, Inr tout))"
      by (rule inst [where t = 14, THEN conjunct2, THEN conjunct1, THEN mp]) (simp add: pending2_def cache0_def)
    then show ?thesis
      by (simp add: timed_out_def py_mod_def pending2_def a2a0_def)
  qed
  have snd_a: "fst ` set pending2 = push_senders ?ams"
    using inst [where t = 13, THEN conjunct2, THEN conjunct2, THEN conjunct2, THEN conjunct2,
        THEN mp, OF conjI [OF _ ra], THEN conjunct2]
    by simp
  have c_empty: "Chord_timed_out hcallw0 (chord0\<lparr>local_cache := []\<rparr>) cache0 13 2 =
     (chord0\<lparr>local_cache := []\<rparr>, cache0, Inr True)"
    using batched_merge_on_timeout
      [where n = "chord0\<lparr>local_cache := []\<rparr>" and ks = "[]" and vs = "[]" and c = cache0
         and hcallw = hcallw0 and w = 2 and t = 13, THEN conjunct1]
    by (simp add: t13)
  from ra rc snd_a a13 c13 a14 c_empty show ?thesis by (intro conjI)
qed

subsection \<open>Receiving a partition\<close>

lemma length_PartitionedTMH_call:
  "length (PartitionedTMH_call combine h recv dat pid) = length h"
  by (simp add: PartitionedTMH_call_def split: item.splits)

lemma PartitionedTMH_call_frame:
  "length (PartitionedTMH_call combine h recv dat pid) = length h \<and>
   (\<forall>j < length h. pid \<noteq> IntV (int j) \<longrightarrow>
        PartitionedTMH_call combine h recv dat pid ! j = h ! j)"
  by (auto simp: PartitionedTMH_call_def nth_list_update split: item.splits)

lemma unpack2_pair: "unpack2 (Some [a, b]) = Inr (a, b)"
  by (simp add: unpack2_def)

lemma randint_0_length:
  "xs \<noteq> [] \<Longrightarrow> int (length xs) \<le> 2 ^ 63 \<Longrightarrow>
   randint 0 (int (length xs)) u = Inr (int u mod int (length xs))"
  by (cases xs) (simp_all add: randint_def)

lemma randint_0_too_wide: "2 ^ 63 < m \<Longrightarrow> randint 0 m u = Inl ValueError"
  by (simp add: randint_def)


lemma Partitioning_receive_merge:
  assumes v: "m_value msg = Some [KeyV k, IntV pid]" and hit: "map_of (entries c) k = Some recv"
    and ty: "m_type msg = MsgPUSH \<or> m_type msg = MsgREPLY"
  shows "Partitioning_receive combine n c t msg u =
           (n\<lparr>model_handler :=
                PartitionedTMH_call combine (model_handler n) recv (fst (data n)) (IntV pid)\<rparr>,
            c\<lparr>entries := AList.delete k (entries c)\<rparr>, Inr None)"
  using ty
proof
  assume ty: "m_type msg = MsgPUSH"
  show ?thesis unfolding Partitioning_receive_def
    by (simp add: ty v unpack2_pair Cache_pop_hit [OF hit])
next
  assume ty: "m_type msg = MsgREPLY"
  show ?thesis unfolding Partitioning_receive_def
    by (simp add: ty v unpack2_pair Cache_pop_hit [OF hit])
qed

lemma Partitioning_receive_push_pull:
  assumes v: "m_value msg = Some [KeyV k, IntV pid]" and hit: "map_of (entries c) k = Some recv"
    and ty: "m_type msg = MsgPUSH_PULL" and ne: "model_handler n \<noteq> []"
    and le: "int (length (model_handler n)) \<le> 2 ^ 63"
  shows "Partitioning_receive combine n c t msg u =
           (n\<lparr>model_handler :=
                PartitionedTMH_call combine (model_handler n) recv (fst (data n)) (IntV pid)\<rparr>,
            snd (caching (PartitionedTMH_call combine (model_handler n) recv (fst (data n))
                   (IntV pid)) (idx n) (c\<lparr>entries := AList.delete k (entries c)\<rparr>)),
            Inr (Some \<lparr>m_timestamp = t, m_sender = idx n, m_receiver = m_sender msg,
                       m_type = MsgREPLY,
                       m_value = Some [KeyV (fst (caching (PartitionedTMH_call combine
                           (model_handler n) recv (fst (data n)) (IntV pid)) (idx n)
                           (c\<lparr>entries := AList.delete k (entries c)\<rparr>))),
                         IntV (int u mod int (length (model_handler n)))]\<rparr>))"
proof -
  show ?thesis unfolding Partitioning_receive_def
    by (simp add: ty v unpack2_pair Cache_pop_hit [OF hit] randint_0_length [OF ne le]
        length_PartitionedTMH_call split_def Let_def)
qed


lemma Partitioning_receive_pull:
  assumes ty: "m_type msg = MsgPULL" and ne: "model_handler n \<noteq> []"
    and le: "int (length (model_handler n)) \<le> 2 ^ 63"
  shows "Partitioning_receive combine n c t msg u =
     (n, snd (caching (model_handler n) (idx n) c),
      Inr (Some \<lparr>m_timestamp = t, m_sender = idx n, m_receiver = m_sender msg,
                 m_type = MsgREPLY,
                 m_value = Some [KeyV (fst (caching (model_handler n) (idx n) c)),
                   IntV (int u mod int (length (model_handler n)))]\<rparr>))"
  unfolding Partitioning_receive_def
  by (simp add: ty randint_0_length [OF ne le] split_def Let_def)

lemma Partitioning_receive_too_wide:
  assumes big: "2 ^ 63 < int (length (model_handler n))"
    and ty: "m_type msg = MsgPULL \<or>
      m_type msg = MsgPUSH_PULL \<and> m_value msg = Some [KeyV k, IntV pid] \<and>
      map_of (entries c) k = Some recv"
  shows "snd (snd (Partitioning_receive combine n c t msg u)) = Inl ValueError"
  using ty
proof
  assume ty: "m_type msg = MsgPULL"
  show ?thesis unfolding Partitioning_receive_def
    by (simp add: ty randint_0_too_wide [OF big])
next
  assume a: "m_type msg = MsgPUSH_PULL \<and> m_value msg = Some [KeyV k, IntV pid] \<and>
      map_of (entries c) k = Some recv"
  then have hit: "map_of (entries c) k = Some recv" by simp
  show ?thesis unfolding Partitioning_receive_def
    by (simp add: a unpack2_pair Cache_pop_hit [OF hit] length_PartitionedTMH_call
        randint_0_too_wide [OF big])
qed

lemma Partitioning_receive_handler:
  assumes v: "m_value msg = Some [KeyV k, IntV pid]" and hit: "map_of (entries c) k = Some recv"
    and ty: "m_type msg \<in> {MsgPUSH, MsgREPLY, MsgPUSH_PULL}"
  shows "model_handler (fst (Partitioning_receive combine n c t msg u)) =
           PartitionedTMH_call combine (model_handler n) recv (fst (data n)) (IntV pid)"
proof -
  from ty consider "m_type msg = MsgPUSH \<or> m_type msg = MsgREPLY" | "m_type msg = MsgPUSH_PULL"
    by auto
  then show ?thesis
  proof cases
    case 1
    then show ?thesis by (simp add: Partitioning_receive_merge [OF v hit])
  next
    case 2
    show ?thesis unfolding Partitioning_receive_def
      by (simp add: 2 v unpack2_pair Cache_pop_hit [OF hit] split_def Let_def split: sum.splits)
  qed
qed

text \<open>
  C9. When a PartitioningBasedNode receives a PUSH, REPLY or PUSH_PULL whose payload is a key
  in the cache and the partition id \<open>pid\<close>, its handler afterwards is the local model
  merged with partition \<open>pid\<close> of the received snapshot: the number of partitions is the
  same, every partition other than \<open>pid\<close> is what it was, and partition \<open>pid\<close>, when there
  is one, is the merge of the two slices with the training data. The reply to a PULL or a
  PUSH_PULL carries the partition id drawn for it, which lies in \<open>[0, n_parts)\<close> and is a
  function of the draw and of \<open>n_parts\<close> alone, whatever \<open>pid\<close> came in; were there more
  than \<open>2^63\<close> partitions, the draw would raise instead.
\<close>

theorem partition_receive_frame:
  "(m_type msg \<in> {MsgPUSH, MsgREPLY, MsgPUSH_PULL} \<and> m_value msg = Some [KeyV k, IntV pid] \<and>
    map_of (entries c) k = Some recv \<longrightarrow>
      model_handler (fst (Partitioning_receive combine n c t msg u)) =
        PartitionedTMH_call combine (model_handler n) recv (fst (data n)) (IntV pid) \<and>
      length (model_handler (fst (Partitioning_receive combine n c t msg u))) =
        length (model_handler n) \<and>
      (\<forall>j < length (model_handler n). int j \<noteq> pid \<longrightarrow>
           model_handler (fst (Partitioning_receive combine n c t msg u)) ! j =
             model_handler n ! j) \<and>
      (0 \<le> pid \<and> nat pid < length (model_handler n) \<and> nat pid < length recv \<longrightarrow>
           model_handler (fst (Partitioning_receive combine n c t msg u)) ! nat pid =
             combine (model_handler n ! nat pid) (recv ! nat pid) (fst (data n)))) \<and>
   (m_type msg \<in> {MsgPULL, MsgPUSH_PULL} \<and> model_handler n \<noteq> [] \<and>
    (m_type msg = MsgPUSH_PULL \<longrightarrow>
       m_value msg = Some [KeyV k, IntV pid] \<and> map_of (entries c) k = Some recv) \<longrightarrow>
      (if int (length (model_handler n)) \<le> 2 ^ 63 then
         (\<exists>key. snd (snd (Partitioning_receive combine n c t msg u)) =
              Inr (Some \<lparr>m_timestamp = t, m_sender = idx n, m_receiver = m_sender msg,
                         m_type = MsgREPLY,
                         m_value = Some [KeyV key,
                           IntV (int u mod int (length (model_handler n)))]\<rparr>)) \<and>
         randint 0 (int (length (model_handler n))) u =
           Inr (int u mod int (length (model_handler n))) \<and>
         0 \<le> int u mod int (length (model_handler n)) \<and>
         int u mod int (length (model_handler n)) < int (length (model_handler n))
       else snd (snd (Partitioning_receive combine n c t msg u)) = Inl ValueError \<and>
            randint 0 (int (length (model_handler n))) u = Inl ValueError))"
proof (intro conjI impI)
  assume a: "m_type msg \<in> {MsgPUSH, MsgREPLY, MsgPUSH_PULL} \<and>
    m_value msg = Some [KeyV k, IntV pid] \<and> map_of (entries c) k = Some recv"
  then have v: "m_value msg = Some [KeyV k, IntV pid]"
    and hit: "map_of (entries c) k = Some recv"
    and ty: "m_type msg \<in> {MsgPUSH, MsgREPLY, MsgPUSH_PULL}"
    by simp_all
  note h = Partitioning_receive_handler [OF v hit ty, of combine n t u]
  show "model_handler (fst (Partitioning_receive combine n c t msg u)) =
        PartitionedTMH_call combine (model_handler n) recv (fst (data n)) (IntV pid)"
    by (rule h)
  show "length (model_handler (fst (Partitioning_receive combine n c t msg u))) =
        length (model_handler n)"
    by (simp only: h length_PartitionedTMH_call)
  show "\<forall>j < length (model_handler n). int j \<noteq> pid \<longrightarrow>
           model_handler (fst (Partitioning_receive combine n c t msg u)) ! j =
             model_handler n ! j"
    unfolding h
    using PartitionedTMH_call_frame [of combine "model_handler n" recv "fst (data n)" "IntV pid"]
    by auto
  show "model_handler (fst (Partitioning_receive combine n c t msg u)) ! nat pid =
             combine (model_handler n ! nat pid) (recv ! nat pid) (fst (data n))"
    if "0 \<le> pid \<and> nat pid < length (model_handler n) \<and> nat pid < length recv"
    unfolding h using that by (simp add: PartitionedTMH_call_def)
next
  assume a: "m_type msg \<in> {MsgPULL, MsgPUSH_PULL} \<and> model_handler n \<noteq> [] \<and>
    (m_type msg = MsgPUSH_PULL \<longrightarrow>
       m_value msg = Some [KeyV k, IntV pid] \<and> map_of (entries c) k = Some recv)"
  then have ne: "model_handler n \<noteq> []" by simp
  show "if int (length (model_handler n)) \<le> 2 ^ 63 then
         (\<exists>key. snd (snd (Partitioning_receive combine n c t msg u)) =
              Inr (Some \<lparr>m_timestamp = t, m_sender = idx n, m_receiver = m_sender msg,
                         m_type = MsgREPLY,
                         m_value = Some [KeyV key,
                           IntV (int u mod int (length (model_handler n)))]\<rparr>)) \<and>
         randint 0 (int (length (model_handler n))) u =
           Inr (int u mod int (length (model_handler n))) \<and>
         0 \<le> int u mod int (length (model_handler n)) \<and>
         int u mod int (length (model_handler n)) < int (length (model_handler n))
       else snd (snd (Partitioning_receive combine n c t msg u)) = Inl ValueError \<and>
            randint 0 (int (length (model_handler n))) u = Inl ValueError"
  proof (cases "int (length (model_handler n)) \<le> 2 ^ 63")
    case le: True
    from a consider "m_type msg = MsgPULL"
      | "m_type msg = MsgPUSH_PULL" "m_value msg = Some [KeyV k, IntV pid]"
        "map_of (entries c) k = Some recv"
      by auto
    then have "\<exists>key. snd (snd (Partitioning_receive combine n c t msg u)) =
           Inr (Some \<lparr>m_timestamp = t, m_sender = idx n, m_receiver = m_sender msg,
                      m_type = MsgREPLY,
                      m_value = Some [KeyV key,
                        IntV (int u mod int (length (model_handler n)))]\<rparr>)"
    proof cases
      case 1
      show ?thesis by (simp add: Partitioning_receive_pull [OF 1 ne le])
    next
      case 2
      show ?thesis by (simp add: Partitioning_receive_push_pull [OF 2(2,3,1) ne le])
    qed
    moreover from ne le have "randint 0 (int (length (model_handler n))) u =
        Inr (int u mod int (length (model_handler n)))"
      by (simp add: randint_0_length)
    moreover from ne have "0 \<le> int u mod int (length (model_handler n))" by simp
    moreover from ne have
      "int u mod int (length (model_handler n)) < int (length (model_handler n))"
      by simp
    ultimately show ?thesis using le by simp
  next
    case False
    then have big: "2 ^ 63 < int (length (model_handler n))" by simp
    from a have "m_type msg = MsgPULL \<or>
      m_type msg = MsgPUSH_PULL \<and> m_value msg = Some [KeyV k, IntV pid] \<and>
      map_of (entries c) k = Some recv"
      by auto
    from Partitioning_receive_too_wide [OF big this] randint_0_too_wide [OF big] False
    show ?thesis by simp
  qed
qed

theorem partition_receive_frame_witness:
  "Partitioning_receive combine0 pnode0 pcache0 6 (part_msg MsgPUSH 0 1) 5 =
     (pnode0\<lparr>model_handler := [1, 27, 3]\<rparr>, \<lparr>entries = [], next_key = 1\<rparr>, Inr None) \<and>
   Partitioning_receive combine0 pnode0 pcache0 6 (part_msg MsgPUSH_PULL 0 1) 5 =
     (pnode0\<lparr>model_handler := [1, 27, 3]\<rparr>, \<lparr>entries = [(1, [1, 27, 3])], next_key = 2\<rparr>,
      Inr (Some \<lparr>m_timestamp = 6, m_sender = 0, m_receiver = 1, m_type = MsgREPLY,
                 m_value = Some [KeyV 1, IntV 2]\<rparr>))"
  using partition_receive_frame [of "part_msg MsgPUSH 0 1" 0 1 pcache0 "[10, 20, 30]" combine0
      pnode0 6 5]
    partition_receive_frame [of "part_msg MsgPUSH_PULL 0 1" 0 1 pcache0 "[10, 20, 30]" combine0
      pnode0 6 5]
  by (simp add: part_msg_def pnode0_def pcache0_def combine0_def Partitioning_receive_def
      unpack2_def Cache_pop_def PartitionedTMH_call_def randint_def caching_def Cache_put_def
      AList.delete_eq split_def Let_def)

end
